theory Spec2Isabelle
  imports Complex_Main "HOL-Library.Sublist" "HOL-Library.Multiset"
begin

section \<open>The job discovery pipeline of \<^verbatim>\<open>src/agents/discovery.py\<close>\<close>

text \<open>
  The development embeds \<^verbatim>\<open>run_discovery\<close> and the functions it calls. Python values
  are modelled as follows.
  \<^item> A decoded JSON document (the oracle's reply) is a value of \<open>json\<close>. A JSON number is
    a rational: every finite float and every integer is one, and Python compares them
    exactly. The floats \<^verbatim>\<open>NaN\<close> and \<^verbatim>\<open>Infinity\<close> are outside the model.
  \<^item> A job returned by the search provider is a record whose fields are optional: a
    missing key is \<open>None\<close>. A key that is present holds a value of the shape the
    provider documents (a string, a list of apply options).
  \<^item> The preferences file is a record of optional sections with optional fields, so that
    a missing key is \<open>None\<close>; a field that is present has the shape the file documents.
  \<^item> A string is the list of the bytes of its UTF-8 encoding (every string can be
    encoded); on such lists \<open>sublist\<close> is Python's substring test \<^verbatim>\<open>in\<close>. \<^verbatim>\<open>str.lower\<close> and
    the digest are functions of the standard library: both are parameters of the model,
    and every property holds for whatever functions they are.
  \<^item> An exception that leaves \<^verbatim>\<open>run_discovery\<close> is a value of \<open>error\<close>; an exception
    caught by \<^verbatim>\<open>asyncio.gather(..., return_exceptions=True)\<close> is the outcome \<open>Raised\<close>
    of the task. What a task raises is an instance of \<^verbatim>\<open>Exception\<close>.
  \<^item> \<^verbatim>\<open>run_discovery\<close> returns the list of the external calls it made, in the order in
    which the tasks were created, and either the exception that ended it or the list
    of surfaced jobs.
\<close>

subsection \<open>Data\<close>

datatype json =
    JNull
  | JBool bool
  | JNum rat
  | JStr string
  | JArr "json list"
  | JObj "(string \<times> json) list"

datatype error = KeyError string | TypeError

datatype 'a outcome = Raised | Returned 'a

record listing =
  title :: "string option"
  company_name :: "string option"
  location :: "string option"
  description :: "string option"
  link :: "string option"
  apply_options :: "string option list option"
  detected_extensions :: "(string \<times> string) list option"

text \<open>
  An entry of \<open>apply_options\<close> is modelled by the only key the code reads, its optional
  \<^verbatim>\<open>link\<close>; \<open>detected_extensions\<close> is the association list of the nested dictionary.
\<close>

record location_prefs =
  requirement :: "json option"
  dealbreakers :: "string list option"

record compensation_prefs =
  minimum_base_salary :: "json option"

record company_prefs =
  preferred_sizes :: "json option"
  industries_preferred :: "json option"

record scoring_prefs =
  weights :: "json option"
  minimum_score_to_surface :: "rat option"

record discovery_prefs =
  exclude_keywords :: "string list option"

record preferences =
  target_titles :: "json option"
  p_location :: "location_prefs option"
  p_compensation :: "compensation_prefs option"
  p_company :: "company_prefs option"
  p_scoring :: "scoring_prefs option"
  p_discovery :: "discovery_prefs option"
  search_queries :: "string list option"

text \<open>
  The dictionary appended to \<^verbatim>\<open>all_jobs\<close> (lines 199 to 211). The keys \<^verbatim>\<open>title\<close>,
  \<^verbatim>\<open>location\<close> and \<^verbatim>\<open>description\<close> are prefixed, their names being fields of \<open>listing\<close>.
  \<open>score\<close> holds the numeric value of \<^verbatim>\<open>overall_score\<close>.
\<close>

record surfaced =
  external_id :: string
  out_title :: string
  company :: string
  out_location :: string
  out_description :: string
  url :: string
  source :: string
  posted_date :: "string option"
  score :: rat
  score_breakdown :: json
  raw_data :: listing

subsection \<open>Strings\<close>

text \<open>\<^verbatim>\<open>d.get(key, default)\<close> on a key holding a string.\<close>

definition get_str :: "string option \<Rightarrow> string \<Rightarrow> string" where
  "get_str field dflt = (case field of None \<Rightarrow> dflt | Some s \<Rightarrow> s)"

subsection \<open>Canonical URL and external id (lines 50 to 52 and 168 to 174)\<close>

text \<open>
  \<^verbatim>\<open>apply_options = job.get("apply_options") or []\<close>, then
  \<^verbatim>\<open>url = (apply_options[0].get("link", "") if apply_options else job.get("link", "")) or job.get("link", "")\<close>.
  Python's \<^verbatim>\<open>or\<close> takes its right operand when the left one is the empty string.
\<close>

definition canonical_url :: "listing \<Rightarrow> string" where
  "canonical_url job =
     (let opts = (case apply_options job of None \<Rightarrow> [] | Some os \<Rightarrow> os);
          first = (case opts of [] \<Rightarrow> get_str (link job) [] | ao # _ \<Rightarrow> get_str ao [])
      in if first = [] then get_str (link job) [] else first)"

text \<open>
  \<^verbatim>\<open>hashlib.md5(url.encode()).hexdigest()\<close>: the digest function of the standard library
  is a parameter of the model.
\<close>

definition generate_external_id :: "(string \<Rightarrow> string) \<Rightarrow> string \<Rightarrow> string" where
  "generate_external_id md5 u = md5 u"

subsection \<open>Prefilter (lines 122 to 138)\<close>

text \<open>
  \<^verbatim>\<open>str.lower\<close> is the first parameter. The two sets are passed as they are: the caller
  has lower-cased them.
\<close>

definition prefilter ::
  "(string \<Rightarrow> string) \<Rightarrow> listing \<Rightarrow> string set \<Rightarrow> string set \<Rightarrow> bool" where
  "prefilter lower job excluded breakers =
     (let t = lower (get_str (title job) []) in
      if \<exists>kw\<in>excluded. sublist kw t then False
      else
        let loc = lower (get_str (location job) []);
            descr = lower (get_str (description job) [])
        in if (\<exists>db\<in>breakers. sublist db loc) \<and> \<not> sublist ''remote'' descr then False
           else True)"

subsection \<open>Decoded JSON values\<close>

text \<open>
  \<^verbatim>\<open>v[key]\<close> with a string key: a dictionary raises \<^verbatim>\<open>KeyError\<close> on a missing key, every
  other JSON value raises \<^verbatim>\<open>TypeError\<close>. The pairs of a \<open>JObj\<close> are the items of the
  decoded dictionary.
\<close>

definition subscript :: "json \<Rightarrow> string \<Rightarrow> error + json" where
  "subscript v k =
     (case v of
        JObj kvs \<Rightarrow> (case map_of kvs k of None \<Rightarrow> Inl (KeyError k) | Some x \<Rightarrow> Inr x)
      | _ \<Rightarrow> Inl TypeError)"

text \<open>
  The values Python orders against a number: numbers, and booleans as 0 and 1.
\<close>

definition numeric :: "json \<Rightarrow> rat option" where
  "numeric v =
     (case v of JNum r \<Rightarrow> Some r | JBool b \<Rightarrow> Some (if b then 1 else 0) | _ \<Rightarrow> None)"

subsection \<open>The world outside the pipeline\<close>

text \<open>
  \<open>preferences_file\<close> is what \<^verbatim>\<open>load_preferences()\<close> returns, \<open>str_lower\<close> is
  \<^verbatim>\<open>str.lower\<close> and \<open>md5_hexdigest u\<close> is \<^verbatim>\<open>hashlib.md5(u.encode()).hexdigest()\<close>.
  \<open>google_jobs q\<close> is the
  outcome of \<^verbatim>\<open>search_jobs(key, q)\<close>. \<open>claude job\<close> is the outcome of lines 95 to 119
  of \<^verbatim>\<open>score_job\<close> for that job: \<open>Raised\<close> when the request fails or when \<^verbatim>\<open>json.loads\<close>
  rejects the reply, and \<open>Returned v\<close> when \<^verbatim>\<open>json.loads\<close> returns \<open>v\<close>. The two
  \<open>done_at\<close> functions give the time at which each concurrent task completes; they are
  arbitrary.
\<close>

record world =
  preferences_file :: preferences
  str_lower :: "string \<Rightarrow> string"
  md5_hexdigest :: "string \<Rightarrow> string"
  google_jobs :: "string \<Rightarrow> listing list outcome"
  claude :: "listing \<Rightarrow> json outcome"
  search_done_at :: "string \<Rightarrow> nat"
  score_done_at :: "listing \<Rightarrow> nat"

datatype call = SearchCall string | OracleCall listing

subsection \<open>\<^verbatim>\<open>asyncio.gather\<close>\<close>

text \<open>
  The tasks are started in the order of the list and complete in the order of their
  completion times; each completion stores the task's outcome in the slot of the task,
  and the result is the list of the slots.
\<close>

definition gather :: "('t \<Rightarrow> nat) \<Rightarrow> ('t \<Rightarrow> 'r) \<Rightarrow> 't list \<Rightarrow> 'r list" where
  "gather done_at task ts =
     (let started = zip [0..<length ts] ts;
          finished = sort_key (\<lambda>(i, t). done_at t) started;
          slots = map (\<lambda>(i, t). (i, task t)) finished
      in map snd (sort_key fst slots))"

subsection \<open>Reading the preferences (lines 77 to 86 and 151 to 157)\<close>

definition required :: "string \<Rightarrow> 'a option \<Rightarrow> error + 'a" where
  "required k field = (case field of None \<Rightarrow> Inl (KeyError k) | Some v \<Rightarrow> Inr v)"

definition read_settings ::
  "(string \<Rightarrow> string) \<Rightarrow> preferences \<Rightarrow> error + (string set \<times> string set \<times> rat)" where
  "read_settings lower p =
     (case required ''discovery'' (p_discovery p) of Inl e \<Rightarrow> Inl e | Inr d \<Rightarrow>
     (case required ''exclude_keywords'' (exclude_keywords d) of Inl e \<Rightarrow> Inl e | Inr ks \<Rightarrow>
     (case required ''location'' (p_location p) of Inl e \<Rightarrow> Inl e | Inr l \<Rightarrow>
     (case required ''dealbreakers'' (dealbreakers l) of Inl e \<Rightarrow> Inl e | Inr dbs \<Rightarrow>
     (case required ''scoring'' (p_scoring p) of Inl e \<Rightarrow> Inl e | Inr s \<Rightarrow>
     (case required ''minimum_score_to_surface'' (minimum_score_to_surface s) of
        Inl e \<Rightarrow> Inl e
      | Inr m \<Rightarrow> Inr (lower ` set ks, lower ` set dbs, m)))))))"

definition scoring_context :: "preferences \<Rightarrow> error + json" where
  "scoring_context p =
     (case required ''target_titles'' (target_titles p) of Inl e \<Rightarrow> Inl e | Inr tt \<Rightarrow>
     (case required ''location'' (p_location p) of Inl e \<Rightarrow> Inl e | Inr l \<Rightarrow>
     (case required ''requirement'' (requirement l) of Inl e \<Rightarrow> Inl e | Inr rq \<Rightarrow>
     (case required ''compensation'' (p_compensation p) of Inl e \<Rightarrow> Inl e | Inr c \<Rightarrow>
     (case required ''minimum_base_salary'' (minimum_base_salary c) of Inl e \<Rightarrow> Inl e | Inr ms \<Rightarrow>
     (case required ''company'' (p_company p) of Inl e \<Rightarrow> Inl e | Inr co \<Rightarrow>
     (case required ''preferred_sizes'' (preferred_sizes co) of Inl e \<Rightarrow> Inl e | Inr ps \<Rightarrow>
     (case required ''industries_preferred'' (industries_preferred co) of Inl e \<Rightarrow> Inl e | Inr ip \<Rightarrow>
     (case required ''scoring'' (p_scoring p) of Inl e \<Rightarrow> Inl e | Inr s \<Rightarrow>
     (case required ''weights'' (weights s) of
        Inl e \<Rightarrow> Inl e
      | Inr ws \<Rightarrow>
          Inr (JObj [(''target_titles'', tt), (''location_requirement'', rq),
                     (''min_salary'', ms), (''preferred_company_sizes'', ps),
                     (''preferred_industries'', ip), (''scoring_weights'', ws)])))))))))))"

subsection \<open>Scoring one job (lines 89 to 119)\<close>

text \<open>
  The prompt is built before the request is sent, so a \<^verbatim>\<open>KeyError\<close> of
  \<^verbatim>\<open>_scoring_context\<close> is raised inside the task and no request is made. The first
  component lists the requests made.
\<close>

definition score_job :: "world \<Rightarrow> listing \<Rightarrow> call list \<times> json outcome" where
  "score_job w job =
     (case scoring_context (preferences_file w) of
        Inl e \<Rightarrow> ([], Raised)
      | Inr ctx \<Rightarrow> ([OracleCall job], claude w job))"

subsection \<open>Deduplication and prefilter loop (lines 162 to 179)\<close>

type_synonym candidate = "string \<times> string \<times> listing"

text \<open>
  The body of the inner loop, on the state \<open>(seen, candidates)\<close>. The test of line 178
  is the parameter \<open>keep\<close>.
\<close>

definition visit ::
  "(string \<Rightarrow> string) \<Rightarrow> (listing \<Rightarrow> bool) \<Rightarrow> listing \<Rightarrow>
   string set \<times> candidate list \<Rightarrow> string set \<times> candidate list" where
  "visit md5 keep job st =
     (case st of (seen, candidates) \<Rightarrow>
        let u = canonical_url job;
            eid = generate_external_id md5 u
        in if eid \<in> seen then (seen, candidates)
           else (insert eid seen,
                 if keep job then candidates @ [(eid, u, job)] else candidates))"

text \<open>The outer loop: a search that raised is skipped.\<close>

fun scan ::
  "(string \<Rightarrow> string) \<Rightarrow> (listing \<Rightarrow> bool) \<Rightarrow> listing list outcome list \<Rightarrow>
   string set \<times> candidate list \<Rightarrow> string set \<times> candidate list" where
  "scan md5 keep [] st = st"
| "scan md5 keep (Raised # results) st = scan md5 keep results st"
| "scan md5 keep (Returned jobs # results) st =
     scan md5 keep results (fold (visit md5 keep) jobs st)"

text \<open>
  The deduplication stage alone is the loop in which line 178 keeps every job.
\<close>

definition deduplicate :: "(string \<Rightarrow> string) \<Rightarrow> listing list \<Rightarrow> candidate list" where
  "deduplicate md5 jobs = snd (fold (visit md5 (\<lambda>_. True)) jobs ({}, []))"

subsection \<open>Threshold and ranking (lines 193 to 214)\<close>

definition make_entry :: "candidate \<Rightarrow> rat \<Rightarrow> json \<Rightarrow> surfaced" where
  "make_entry c r b =
     (case c of (eid, u, job) \<Rightarrow>
        \<lparr>external_id = eid,
         out_title = get_str (title job) ''Unknown'',
         company = get_str (company_name job) ''Unknown'',
         out_location = get_str (location job) ''Unknown'',
         out_description = get_str (description job) [],
         url = u,
         source = ''google_jobs'',
         posted_date =
           (case detected_extensions job of None \<Rightarrow> None | Some d \<Rightarrow> map_of d ''posted_at''),
         score = r,
         score_breakdown = b,
         raw_data = job\<rparr>)"

text \<open>
  One pass of the loop body on a task that returned: \<open>Inl\<close> is an exception leaving the
  loop, \<open>Inr None\<close> a job under the threshold, \<open>Inr (Some e)\<close> the entry appended.
  \<^verbatim>\<open>score_data["overall_score"] >= min_score\<close> raises \<^verbatim>\<open>TypeError\<close> when the value is
  not one Python orders against the numeric \<^verbatim>\<open>min_score\<close>.
\<close>

definition surface :: "rat \<Rightarrow> candidate \<times> json \<Rightarrow> error + surfaced option" where
  "surface min_score cs =
     (case cs of (c, score_data) \<Rightarrow>
       (case subscript score_data ''overall_score'' of Inl e \<Rightarrow> Inl e | Inr v \<Rightarrow>
       (case numeric v of None \<Rightarrow> Inl TypeError | Some r \<Rightarrow>
          if min_score \<le> r then
            (case subscript score_data ''breakdown'' of
               Inl e \<Rightarrow> Inl e
             | Inr b \<Rightarrow> Inr (Some (make_entry c r b)))
          else Inr None)))"

fun aggregate ::
  "rat \<Rightarrow> (candidate \<times> json) outcome list \<Rightarrow> surfaced list \<Rightarrow> error + surfaced list" where
  "aggregate min_score [] all_jobs = Inr all_jobs"
| "aggregate min_score (Raised # scored) all_jobs = aggregate min_score scored all_jobs"
| "aggregate min_score (Returned cs # scored) all_jobs =
     (case surface min_score cs of
        Inl e \<Rightarrow> Inl e
      | Inr None \<Rightarrow> aggregate min_score scored all_jobs
      | Inr (Some entry) \<Rightarrow> aggregate min_score scored (all_jobs @ [entry]))"

text \<open>
  \<^verbatim>\<open>list.sort(key=..., reverse=True)\<close>: the list is reversed, sorted by a stable
  ascending sort, and reversed again.
\<close>

definition sort_by_score :: "surfaced list \<Rightarrow> surfaced list" where
  "sort_by_score all_jobs = rev (sort_key score (rev all_jobs))"

subsection \<open>The pipeline (lines 141 to 214)\<close>

definition score_task :: "world \<Rightarrow> candidate \<Rightarrow> (candidate \<times> json) outcome" where
  "score_task w c =
     (case c of (eid, u, job) \<Rightarrow>
       (case snd (score_job w job) of Raised \<Rightarrow> Raised | Returned sd \<Rightarrow> Returned (c, sd)))"

definition find_candidates ::
  "world \<Rightarrow> string set \<Rightarrow> string set \<Rightarrow> string list \<Rightarrow> candidate list" where
  "find_candidates w excluded breakers queries =
     (let search_results = gather (search_done_at w) (google_jobs w) queries
      in snd (scan (md5_hexdigest w) (\<lambda>job. prefilter (str_lower w) job excluded breakers)
                search_results ({}, [])))"

definition run_discovery :: "world \<Rightarrow> call list \<times> (error + surfaced list)" where
  "run_discovery w =
     (case read_settings (str_lower w) (preferences_file w) of
        Inl e \<Rightarrow> ([], Inl e)
      | Inr (excluded, breakers, min_score) \<Rightarrow>
          (case required ''search_queries'' (search_queries (preferences_file w)) of
             Inl e \<Rightarrow> ([], Inl e)
           | Inr queries \<Rightarrow>
               let candidates = find_candidates w excluded breakers queries;
                   scored = gather (\<lambda>(eid, u, job). score_done_at w job) (score_task w) candidates
               in (map SearchCall queries
                     @ concat (map (\<lambda>(eid, u, job). fst (score_job w job)) candidates),
                   case aggregate min_score scored [] of
                     Inl e \<Rightarrow> Inl e
                   | Inr all_jobs \<Rightarrow> Inr (sort_by_score all_jobs))))"

subsection \<open>Notions used to state the properties\<close>

text \<open>
  The flattened, query-ordered sequence of jobs: the jobs the two nested loops visit,
  in the order in which they visit them.
\<close>

definition flattened :: "listing list outcome list \<Rightarrow> listing list" where
  "flattened results =
     concat (map (\<lambda>r. case r of Raised \<Rightarrow> [] | Returned jobs \<Rightarrow> jobs) results)"

definition job_id :: "(string \<Rightarrow> string) \<Rightarrow> listing \<Rightarrow> string" where
  "job_id md5 job = generate_external_id md5 (canonical_url job)"

definition candidate_of :: "(string \<Rightarrow> string) \<Rightarrow> listing \<Rightarrow> candidate" where
  "candidate_of md5 job = (job_id md5 job, canonical_url job, job)"

text \<open>The jobs that pass the test of line 175, from a given set of seen ids.\<close>

fun unseen :: "(string \<Rightarrow> string) \<Rightarrow> string set \<Rightarrow> listing list \<Rightarrow> listing list" where
  "unseen md5 seen [] = []"
| "unseen md5 seen (job # jobs) =
     (if job_id md5 job \<in> seen then unseen md5 seen jobs
      else job # unseen md5 (insert (job_id md5 job) seen) jobs)"

text \<open>The entry a finished scoring task contributes to \<^verbatim>\<open>all_jobs\<close>, if any.\<close>

definition entry_of :: "rat \<Rightarrow> (candidate \<times> json) outcome \<Rightarrow> surfaced option" where
  "entry_of min_score r =
     (case r of
        Raised \<Rightarrow> None
      | Returned cs \<Rightarrow> (case surface min_score cs of Inr (Some entry) \<Rightarrow> Some entry | _ \<Rightarrow> None))"

text \<open>A provider whose failures are replaced by empty result lists.\<close>

definition absorb :: "(string \<Rightarrow> listing list outcome) \<Rightarrow> string \<Rightarrow> listing list outcome" where
  "absorb provider q = (case provider q of Raised \<Rightarrow> Returned [] | Returned jobs \<Rightarrow> Returned jobs)"

text \<open>
  A reply that lines 197 to 211 accept without raising, whatever the threshold: an
  object with a numeric \<^verbatim>\<open>overall_score\<close> and a \<^verbatim>\<open>breakdown\<close>.
\<close>

definition well_formed :: "json \<Rightarrow> bool" where
  "well_formed score_data =
     (case subscript score_data ''overall_score'' of
        Inl e \<Rightarrow> False
      | Inr v \<Rightarrow> numeric v \<noteq> None \<and> \<not> isl (subscript score_data ''breakdown''))"

text \<open>The jobs for which a request was sent to the oracle, in the order of the requests.\<close>

definition oracle_jobs :: "call list \<Rightarrow> listing list" where
  "oracle_jobs calls =
     List.map_filter (\<lambda>c. case c of OracleCall job \<Rightarrow> Some job | SearchCall q \<Rightarrow> None) calls"

text \<open>
  The fields read before the searches start (lines 151 to 157), and the fields read
  by \<^verbatim>\<open>_scoring_context\<close> inside each scoring task.
\<close>

definition startup_fields_present :: "preferences \<Rightarrow> bool" where
  "startup_fields_present p =
     ((case p_discovery p of None \<Rightarrow> False | Some d \<Rightarrow> exclude_keywords d \<noteq> None)
      \<and> (case p_location p of None \<Rightarrow> False | Some l \<Rightarrow> dealbreakers l \<noteq> None)
      \<and> (case p_scoring p of None \<Rightarrow> False | Some s \<Rightarrow> minimum_score_to_surface s \<noteq> None)
      \<and> search_queries p \<noteq> None)"

definition context_fields_present :: "preferences \<Rightarrow> bool" where
  "context_fields_present p =
     (target_titles p \<noteq> None
      \<and> (case p_location p of None \<Rightarrow> False | Some l \<Rightarrow> requirement l \<noteq> None)
      \<and> (case p_compensation p of None \<Rightarrow> False | Some c \<Rightarrow> minimum_base_salary c \<noteq> None)
      \<and> (case p_company p of
            None \<Rightarrow> False
          | Some c \<Rightarrow> preferred_sizes c \<noteq> None \<and> industries_preferred c \<noteq> None)
      \<and> (case p_scoring p of None \<Rightarrow> False | Some s \<Rightarrow> weights s \<noteq> None))"

subsection \<open>The semaphore of the scoring stage (lines 182 to 186)\<close>

text \<open>
  Every scoring task runs \<^verbatim>\<open>async with semaphore: ... await score_job(...)\<close> on the one
  semaphore created with five permits. A task waits until it takes a permit, is then in
  flight (its oracle request is made inside the block), and gives the permit back when
  the block is left, by a return or by an exception. The event loop decides which task
  moves next: a schedule is the list of the tasks it advances, in order. A waiting task
  that is advanced while no permit is free stays where it is.
\<close>

datatype phase = Waiting | InFlight | Finished

record scorer =
  permits :: nat
  phases :: "phase list"

definition start_scoring :: "nat \<Rightarrow> scorer" where
  "start_scoring n = \<lparr>permits = 5, phases = replicate n Waiting\<rparr>"

definition advance :: "nat \<Rightarrow> scorer \<Rightarrow> scorer" where
  "advance i s =
     (if i < length (phases s) then
        (case phases s ! i of
           Waiting \<Rightarrow>
             if 0 < permits s
             then s\<lparr>permits := permits s - 1, phases := (phases s)[i := InFlight]\<rparr>
             else s
         | InFlight \<Rightarrow> s\<lparr>permits := permits s + 1, phases := (phases s)[i := Finished]\<rparr>
         | Finished \<Rightarrow> s)
      else s)"

definition in_flight :: "scorer \<Rightarrow> nat" where
  "in_flight s = length (filter (\<lambda>p. p = InFlight) (phases s))"

subsection \<open>A concrete run\<close>

text \<open>
  Three queries, the third of which fails; eight jobs, among them a repost that shares
  its apply link with an earlier job, a title with an excluded keyword, a location with
  a dealbreaker, one with a dealbreaker and a remote description, two equal scores, one
  score under the threshold and one oracle failure. The digest is the identity here,
  and lower-casing is \<open>ascii_lower\<close>.
\<close>

text \<open>
  Lower-casing of the letters A to Z: \<^verbatim>\<open>str.lower\<close> on the strings of this run, which are
  all ASCII.
\<close>

definition ascii_lower_char :: "char \<Rightarrow> char" where
  "ascii_lower_char c =
     (case map_of (zip ''ABCDEFGHIJKLMNOPQRSTUVWXYZ'' ''abcdefghijklmnopqrstuvwxyz'') c of
        None \<Rightarrow> c
      | Some l \<Rightarrow> l)"

definition ascii_lower :: "string \<Rightarrow> string" where
  "ascii_lower s = map ascii_lower_char s"

definition plain_job :: "string \<Rightarrow> string \<Rightarrow> string \<Rightarrow> string \<Rightarrow> listing" where
  "plain_job t loc descr l =
     \<lparr>title = Some t, company_name = Some ''Acme'', location = Some loc,
      description = Some descr, link = Some l, apply_options = None,
      detected_extensions = None\<rparr>"

definition office_manager :: listing where
  "office_manager = plain_job ''Office Manager'' ''Austin'' ''Front office'' ''u1''"

definition senior_pm :: listing where
  "senior_pm =
     (plain_job ''Senior PM'' ''Remote'' ''Product role'' ''u2'')
       \<lparr>apply_options := Some [Some ''a2'', Some ''b2'']\<rparr>"

definition staff_pm :: listing where
  "staff_pm = plain_job ''Staff PM'' ''Remote'' ''Platform'' ''u3''"

definition onsite_pm :: listing where
  "onsite_pm = plain_job ''PM'' ''Onsite Chicago'' ''Office based'' ''u8''"

definition senior_pm_repost :: listing where
  "senior_pm_repost =
     (plain_job ''Senior Product Manager'' ''Remote'' ''Product role'' ''u2b'')
       \<lparr>apply_options := Some [Some ''a2'']\<rparr>"

definition lead_pm :: listing where
  "lead_pm = plain_job ''Lead PM'' ''Onsite NYC'' ''Remote possible'' ''u4''"

definition junior_pm :: listing where
  "junior_pm = plain_job ''Junior PM'' ''Remote'' ''Entry level'' ''u5''"

definition principal_pm :: listing where
  "principal_pm = plain_job ''Principal PM'' ''Remote'' ''Strategy'' ''u6''"

definition reply :: "rat \<Rightarrow> json outcome" where
  "reply r = Returned (JObj [(''overall_score'', JNum r), (''breakdown'', JObj [])])"

definition scenario_prefs :: preferences where
  "scenario_prefs =
     \<lparr>target_titles = Some (JArr [JStr ''Senior PM'']),
      p_location = Some \<lparr>requirement = Some (JStr ''remote''), dealbreakers = Some [''Onsite'']\<rparr>,
      p_compensation = Some \<lparr>minimum_base_salary = Some (JNum 150000)\<rparr>,
      p_company = Some \<lparr>preferred_sizes = Some (JArr []), industries_preferred = Some (JArr [])\<rparr>,
      p_scoring = Some \<lparr>weights = Some (JObj []), minimum_score_to_surface = Some (4 / 5)\<rparr>,
      p_discovery = Some \<lparr>exclude_keywords = Some [''Office Manager'']\<rparr>,
      search_queries = Some [''PM remote'', ''Senior PM'', ''Head of Product'']\<rparr>"

definition scenario :: world where
  "scenario =
     \<lparr>preferences_file = scenario_prefs,
      str_lower = ascii_lower,
      md5_hexdigest = (\<lambda>u. u),
      google_jobs = (\<lambda>q.
        if q = ''PM remote'' then Returned [office_manager, senior_pm, staff_pm, onsite_pm]
        else if q = ''Senior PM''
          then Returned [senior_pm_repost, lead_pm, junior_pm, principal_pm]
        else Raised),
      claude = (\<lambda>job.
        if job = senior_pm then reply (17 / 20)
        else if job = staff_pm then reply (91 / 100)
        else if job = lead_pm then reply (91 / 100)
        else if job = junior_pm then reply (1 / 2)
        else Raised),
      search_done_at = (\<lambda>q. if q = ''PM remote'' then 2 else 1),
      score_done_at = (\<lambda>job. if job = staff_pm then 9 else 1)\<rparr>"

text \<open>
  The same run in which the oracle answers one job with a JSON object that has no
  \<^verbatim>\<open>overall_score\<close>, and the same run in which that request fails instead.
\<close>

definition scenario_malformed :: world where
  "scenario_malformed =
     scenario\<lparr>claude := (\<lambda>job.
       if job = junior_pm then Returned (JObj [(''reasoning'', JStr ''Not enough detail'')])
       else claude scenario job)\<rparr>"

definition scenario_failed :: world where
  "scenario_failed =
     scenario\<lparr>claude := (\<lambda>job. if job = junior_pm then Raised else claude scenario job)\<rparr>"

text \<open>The same run with a preferences file that has no \<^verbatim>\<open>target_titles\<close>.\<close>

definition scenario_no_titles :: world where
  "scenario_no_titles =
     scenario\<lparr>preferences_file := scenario_prefs\<lparr>target_titles := None\<rparr>\<rparr>"

text \<open>A job whose first apply option has an empty link.\<close>

definition blank_apply_link :: listing where
  "blank_apply_link =
     (plain_job ''PM'' ''Remote'' ''Growth'' ''u7'')\<lparr>apply_options := Some [Some []]\<rparr>"

text \<open>What the concrete run surfaces.\<close>

definition scenario_output :: "surfaced list" where
  "scenario_output =
     [make_entry (''u3'', ''u3'', staff_pm) (91 / 100) (JObj []),
      make_entry (''u4'', ''u4'', lead_pm) (91 / 100) (JObj []),
      make_entry (''a2'', ''a2'', senior_pm) (17 / 20) (JObj [])]"

text \<open>A job that shares its link with \<open>office_manager\<close> and has an acceptable title.\<close>

definition office_repost :: listing where
  "office_repost = plain_job ''Product Manager'' ''Remote'' ''Operations'' ''u1''"

section \<open>Properties\<close>

subsection \<open>The stages\<close>

text \<open>
  Whatever the completion times, \<open>gather\<close> returns the outcomes in the order in which
  the tasks were given.
\<close>

lemma gather_eq_map: "gather done_at task ts = map task ts"
proof -
  define started where "started = zip [0..<length ts] ts"
  define finished where "finished = sort_key (\<lambda>(i, t). done_at t) started"
  define g where "g = (\<lambda>(i :: nat, t). (i, task t))"
  define slots where "slots = map g finished"
  have m: "mset slots = mset (map g started)"
    by (simp add: slots_def finished_def)
  have fg: "map fst (map g started) = map fst started"
    by (simp add: g_def case_prod_beta)
  have "distinct (map fst started)" by (simp add: started_def)
  with fg have "distinct (map fst (map g started))" by metis
  then have "inj_on fst (set (map g started))"
    by (rule distinct_map[THEN iffD1, THEN conjunct2])
  moreover have "set slots = set (map g started)"
    using m by (rule mset_eq_setD)
  ultimately have inj: "inj_on fst (set slots)" by simp
  have "sorted (map fst started)" by (simp add: started_def)
  with fg have srt: "sorted (map fst (map g started))" by metis
  have "sort_key fst slots = map g started"
    using m inj srt by (rule sort_key_inj_key_eq)
  moreover have "map snd (map g started) = map task ts"
    by (simp add: g_def started_def case_prod_beta comp_def zip_map2[symmetric] )
  ultimately have "map snd (sort_key fst slots) = map task ts" by simp
  then show ?thesis
    by (simp add: gather_def started_def finished_def slots_def g_def)
qed


lemma fold_visit:
  "fold (visit md5 keep) jobs (seen, cands) =
     (seen \<union> job_id md5 ` set jobs,
      cands @ map (candidate_of md5) (filter keep (unseen md5 seen jobs)))"
proof (induction jobs arbitrary: seen cands)
  case Nil
  show ?case by simp
next
  case (Cons job jobs)
  show ?case
  proof (cases "job_id md5 job \<in> seen")
    case True
    then have "visit md5 keep job (seen, cands) = (seen, cands)"
      by (simp add: visit_def job_id_def Let_def)
    with True Cons.IH [of seen cands] show ?thesis by auto
  next
    case False
    then have "visit md5 keep job (seen, cands) =
        (insert (job_id md5 job) seen,
         if keep job then cands @ [candidate_of md5 job] else cands)"
      by (simp add: visit_def job_id_def candidate_of_def Let_def)
    with False Cons.IH [of "insert (job_id md5 job) seen"] show ?thesis by auto
  qed
qed

lemma scan_fold: "scan md5 keep results st = fold (visit md5 keep) (flattened results) st"
  by (induction md5 keep results st rule: scan.induct) (simp_all add: flattened_def)

lemma find_candidates_eq:
  "find_candidates w excluded breakers queries =
     map (candidate_of (md5_hexdigest w))
       (filter (\<lambda>job. prefilter (str_lower w) job excluded breakers)
         (unseen (md5_hexdigest w) {} (flattened (map (google_jobs w) queries))))"
  by (simp add: find_candidates_def gather_eq_map scan_fold fold_visit)

lemma deduplicate_eq: "deduplicate md5 jobs = map (candidate_of md5) (unseen md5 {} jobs)"
  by (simp add: deduplicate_def fold_visit)

lemma unseen_subseq: "subseq (unseen md5 seen jobs) jobs"
  by (induction jobs arbitrary: seen) auto

lemma unseen_fresh: "job \<in> set (unseen md5 seen jobs) \<Longrightarrow> job_id md5 job \<notin> seen"
  by (induction jobs arbitrary: seen) (auto split: if_splits)

lemma unseen_ids: "job_id md5 ` set (unseen md5 seen jobs) = job_id md5 ` set jobs - seen"
  by (induction jobs arbitrary: seen) auto

lemma unseen_distinct: "distinct (map (job_id md5) (unseen md5 seen jobs))"
  by (induction jobs arbitrary: seen) (auto dest: unseen_fresh)

lemma unseen_first:
  "job \<in> set (unseen md5 seen jobs) \<Longrightarrow>
   find (\<lambda>x. job_id md5 x = job_id md5 job) jobs = Some job"
proof (induction jobs arbitrary: seen)
  case Nil
  then show ?case by simp
next
  case (Cons a jobs)
  show ?case
  proof (cases "job_id md5 a \<in> seen")
    case True
    with Cons.prems have mem: "job \<in> set (unseen md5 seen jobs)" by simp
    then have "job_id md5 job \<notin> seen" by (rule unseen_fresh)
    with True have "job_id md5 a \<noteq> job_id md5 job" by auto
    with Cons.IH [OF mem] show ?thesis by simp
  next
    case False
    show ?thesis
    proof (cases "job = a")
      case True
      then show ?thesis by simp
    next
      case neq: False
      with False Cons.prems
      have mem: "job \<in> set (unseen md5 (insert (job_id md5 a) seen) jobs)" by simp
      then have "job_id md5 job \<notin> insert (job_id md5 a) seen" by (rule unseen_fresh)
      then have "job_id md5 a \<noteq> job_id md5 job" by auto
      with Cons.IH [OF mem] show ?thesis by simp
    qed
  qed
qed

lemma unseen_append:
  "unseen md5 seen (xs @ ys) = unseen md5 seen xs @ unseen md5 (seen \<union> job_id md5 ` set xs) ys"
  by (induction xs arbitrary: seen) (auto simp: insert_absorb)

lemma aggregate_Inr:
  "aggregate m scored acc = Inr out \<Longrightarrow> out = acc @ List.map_filter (entry_of m) scored"
proof (induction m scored acc rule: aggregate.induct)
  case (1 m acc)
  then show ?case by simp
next
  case (2 m scored acc)
  then show ?case by (simp add: entry_of_def)
next
  case (3 m cs scored acc)
  then show ?case
    by (auto simp: entry_of_def split: sum.splits option.splits)
qed

lemma sort_by_score_sorted: "sorted_wrt (\<lambda>a b. score b \<le> score a) (sort_by_score xs)"
proof -
  have "sorted (map score (sort_key score (rev xs)))" by simp
  then have "sorted_wrt (\<lambda>a b. score a \<le> score b) (sort_key score (rev xs))"
    by (simp add: sorted_map)
  then show ?thesis by (simp add: sort_by_score_def sorted_wrt_rev)
qed

lemma sort_by_score_stable:
  "filter (\<lambda>e. score e = k) (sort_by_score xs) = filter (\<lambda>e. score e = k) xs"
  by (simp add: sort_by_score_def rev_filter [symmetric] sort_key_stable)

lemma sort_by_score_set: "set (sort_by_score xs) = set xs"
  by (simp add: sort_by_score_def)

lemma sort_by_score_mset: "mset (sort_by_score xs) = mset xs"
  by (simp add: sort_by_score_def)

subsection \<open>The semaphore\<close>

text \<open>
  Permits and tasks in flight always add up to five: a task that enters takes a permit,
  a task that leaves gives it back.
\<close>

lemma length_filter_update:
  "i < length xs \<Longrightarrow>
   length (filter P (xs[i := y])) + (if P (xs ! i) then 1 else 0) =
   length (filter P xs) + (if P y then 1 else 0)"
proof (induction xs arbitrary: i)
  case Nil
  then show ?case by simp
next
  case (Cons x xs)
  show ?case
  proof (cases i)
    case 0
    then show ?thesis by simp
  next
    case (Suc j)
    with Cons.prems have "j < length xs" by simp
    from Cons.IH [OF this] Suc show ?thesis by simp
  qed
qed

lemma advance_permits:
  assumes "permits s + in_flight s = 5"
  shows "permits (advance i s) + in_flight (advance i s) = 5"
proof (cases "i < length (phases s)")
  case False
  with assms show ?thesis by (simp add: advance_def)
next
  case True
  note upd = length_filter_update [OF True, of "\<lambda>p. p = InFlight"]
  show ?thesis
  proof (cases "phases s ! i")
    case Waiting
    with assms True upd [of InFlight] show ?thesis
      by (auto simp: advance_def in_flight_def)
  next
    case InFlight
    with assms True upd [of Finished] show ?thesis
      by (auto simp: advance_def in_flight_def)
  next
    case Finished
    with assms True show ?thesis by (simp add: advance_def)
  qed
qed

lemma run_permits:
  "permits s + in_flight s = 5 \<Longrightarrow>
   permits (fold advance schedule s) + in_flight (fold advance schedule s) = 5"
proof (induction schedule arbitrary: s)
  case Nil
  then show ?case by simp
next
  case (Cons i schedule)
  from Cons.prems have "permits (advance i s) + in_flight (advance i s) = 5"
    by (rule advance_permits)
  then show ?case by (simp add: Cons.IH)
qed

lemma start_permits: "permits (start_scoring n) + in_flight (start_scoring n) = 5"
  by (simp add: start_scoring_def in_flight_def)

text \<open>
  Claim C9. At every moment of the scoring stage at most five oracle calls are in
  flight: whatever the number of candidates and however the event loop interleaves the
  tasks, the state reached after any schedule has at most five tasks inside the
  semaphore block. A schedule is any list of task numbers, so every prefix of a run is
  covered.
\<close>

theorem scoring_ceiling:
  "in_flight (fold advance schedule (start_scoring n)) \<le> 5"
proof -
  have "permits (fold advance schedule (start_scoring n))
      + in_flight (fold advance schedule (start_scoring n)) = 5"
    using start_permits by (rule run_permits)
  then show ?thesis by simp
qed

theorem scoring_ceiling_witness:
  "in_flight (fold advance [0, 1, 2, 3, 4, 5, 6, 0, 5] (start_scoring 7)) = 5 \<and> 
   in_flight (fold advance [0, 1, 2, 3, 4, 5, 6, 0, 5] (start_scoring 7)) \<le> 5"
proof -
  have "in_flight (fold advance [0, 1, 2, 3, 4, 5, 6, 0, 5] (start_scoring 7)) = 5"
    by code_simp
  with scoring_ceiling [of "[0, 1, 2, 3, 4, 5, 6, 0, 5]" 7] show ?thesis by simp
qed

subsection \<open>Deduplication\<close>

lemma candidate_of_sel [simp]:
  "fst (candidate_of md5 job) = job_id md5 job"
  "fst (snd (candidate_of md5 job)) = canonical_url job"
  "snd (snd (candidate_of md5 job)) = job"
  by (simp_all add: candidate_of_def)

lemma find_candidates_dedup:
  "find_candidates w excluded breakers queries =
     filter (\<lambda>c. prefilter (str_lower w) (snd (snd c)) excluded breakers)
       (deduplicate (md5_hexdigest w) (flattened (map (google_jobs w) queries)))"
  by (simp add: find_candidates_eq deduplicate_eq filter_map comp_def)

text \<open>
  Claim C2. For every input sequence of jobs, the candidates the deduplication keeps
  have pairwise distinct external ids, their jobs form a subsequence of the input, every
  external id of the input is kept, and the job kept for an id is the first job of the
  input with that id (later ones are dropped; the loop has no error branch). The
  candidate list of the pipeline is this list filtered by the prefilter, for the
  flattened results of the queries.
\<close>

theorem deduplicate_keeps_first:
  "distinct (map fst (deduplicate md5 jobs))
   \<and> subseq (map (snd \<circ> snd) (deduplicate md5 jobs)) jobs
   \<and> fst ` set (deduplicate md5 jobs) = job_id md5 ` set jobs
   \<and> (\<forall>c\<in>set (deduplicate md5 jobs).
         c = candidate_of md5 (snd (snd c))
         \<and> find (\<lambda>x. job_id md5 x = fst c) jobs = Some (snd (snd c)))
   \<and> find_candidates w excluded breakers queries =
       filter (\<lambda>c. prefilter (str_lower w) (snd (snd c)) excluded breakers)
         (deduplicate (md5_hexdigest w) (flattened (map (google_jobs w) queries)))"
proof (intro conjI ballI)
  show "distinct (map fst (deduplicate md5 jobs))"
    using unseen_distinct [of md5 "{}" jobs] by (simp add: deduplicate_eq comp_def)
  show "subseq (map (snd \<circ> snd) (deduplicate md5 jobs)) jobs"
    using unseen_subseq [of md5 "{}" jobs] by (simp add: deduplicate_eq comp_def)
  show "fst ` set (deduplicate md5 jobs) = job_id md5 ` set jobs"
    using unseen_ids [of md5 "{}" jobs] by (simp add: deduplicate_eq image_image)
  show "find_candidates w excluded breakers queries =
       filter (\<lambda>c. prefilter (str_lower w) (snd (snd c)) excluded breakers)
         (deduplicate (md5_hexdigest w) (flattened (map (google_jobs w) queries)))"
    by (rule find_candidates_dedup)
next
  fix c assume "c \<in> set (deduplicate md5 jobs)"
  then obtain job where job: "job \<in> set (unseen md5 {} jobs)" and c: "c = candidate_of md5 job"
    by (auto simp: deduplicate_eq)
  from c show "c = candidate_of md5 (snd (snd c))" by simp
  from unseen_first [OF job] c
  show "find (\<lambda>x. job_id md5 x = fst c) jobs = Some (snd (snd c))" by simp
qed

theorem deduplicate_keeps_first_witness:
  "map (snd \<circ> snd) (deduplicate (\<lambda>u. u) [senior_pm, staff_pm, senior_pm_repost, staff_pm])
     = [senior_pm, staff_pm]
   \<and> job_id (\<lambda>u. u) senior_pm_repost = job_id (\<lambda>u. u) senior_pm
   \<and> distinct (map fst (deduplicate (\<lambda>u. u) [senior_pm, staff_pm, senior_pm_repost, staff_pm]))
   \<and> subseq (map (snd \<circ> snd) (deduplicate (\<lambda>u. u) [senior_pm, staff_pm, senior_pm_repost, staff_pm]))
        [senior_pm, staff_pm, senior_pm_repost, staff_pm]"
proof -
  have "map (snd \<circ> snd) (deduplicate (\<lambda>u. u) [senior_pm, staff_pm, senior_pm_repost, staff_pm])
     = [senior_pm, staff_pm]"
    by code_simp
  moreover have "job_id (\<lambda>u. u) senior_pm_repost = job_id (\<lambda>u. u) senior_pm"
    by code_simp
  ultimately show ?thesis
    using deduplicate_keeps_first
      [of "\<lambda>u. u" "[senior_pm, staff_pm, senior_pm_repost, staff_pm]" scenario "{}" "{}" "[]"]
    by blast
qed

subsection \<open>The run, unfolded\<close>

lemma run_discovery_fail:
  "read_settings (str_lower w) (preferences_file w) = Inl e \<Longrightarrow> run_discovery w = ([], Inl e)"
  by (simp add: run_discovery_def)

lemma run_discovery_no_queries:
  "read_settings (str_lower w) (preferences_file w) = Inr st \<Longrightarrow>
   search_queries (preferences_file w) = None \<Longrightarrow>
   run_discovery w = ([], Inl (KeyError ''search_queries''))"
  by (simp add: run_discovery_def required_def split: prod.splits)

lemma run_discovery_ok:
  assumes "read_settings (str_lower w) (preferences_file w) = Inr (excluded, breakers, min_score)"
    and "search_queries (preferences_file w) = Some queries"
  shows "run_discovery w =
    (map SearchCall queries
       @ concat (map (\<lambda>c. fst (score_job w (snd (snd c))))
           (find_candidates w excluded breakers queries)),
     case aggregate min_score
            (map (score_task w) (find_candidates w excluded breakers queries)) [] of
       Inl e \<Rightarrow> Inl e
     | Inr all_jobs \<Rightarrow> Inr (sort_by_score all_jobs))"
  using assms
  by (simp add: run_discovery_def required_def gather_eq_map Let_def split_def)

lemma oracle_jobs_append: "oracle_jobs (xs @ ys) = oracle_jobs xs @ oracle_jobs ys"
  by (simp add: oracle_jobs_def List.map_filter_def)

lemma oracle_jobs_searches: "oracle_jobs (map SearchCall queries) = []"
  by (induction queries) (simp_all add: oracle_jobs_def)

lemma oracle_jobs_scoring:
  "oracle_jobs (concat (map (\<lambda>c. fst (score_job w (snd (snd c)))) cands)) =
     (if isl (scoring_context (preferences_file w)) then [] else map (snd \<circ> snd) cands)"
  by (induction cands)
    (auto simp: oracle_jobs_append score_job_def oracle_jobs_def split: sum.splits)

lemma candidates_distinct_urls:
  "distinct (map (canonical_url \<circ> snd \<circ> snd) (find_candidates w excluded breakers queries))"
proof -
  let ?jobs = "filter (\<lambda>job. prefilter (str_lower w) job excluded breakers)
      (unseen (md5_hexdigest w) {} (flattened (map (google_jobs w) queries)))"
  have "distinct (map (job_id (md5_hexdigest w)) ?jobs)"
    using unseen_distinct by (rule distinct_map_filter)
  moreover have "job_id (md5_hexdigest w) = md5_hexdigest w \<circ> canonical_url"
    by (simp add: fun_eq_iff job_id_def generate_external_id_def)
  ultimately have "distinct (map (md5_hexdigest w \<circ> canonical_url) ?jobs)"
    by simp
  then have i: "inj_on (md5_hexdigest w \<circ> canonical_url) (set ?jobs)" and d: "distinct ?jobs"
    by (simp_all add: distinct_map)
  from i have "inj_on canonical_url (set ?jobs)" by (rule inj_on_imageI2)
  with d have "distinct (map canonical_url ?jobs)" by (simp add: distinct_map)
  then show ?thesis by (simp add: find_candidates_eq comp_def)
qed

lemma oracle_calls_distinct_urls:
  "distinct (map canonical_url (oracle_jobs (fst (run_discovery w))))"
proof (cases "read_settings (str_lower w) (preferences_file w)")
  case (Inl e)
  then show ?thesis by (simp add: run_discovery_fail oracle_jobs_def)
next
  case (Inr st)
  obtain excluded breakers min_score where st: "st = (excluded, breakers, min_score)"
    by (cases st) auto
  show ?thesis
  proof (cases "search_queries (preferences_file w)")
    case None
    with Inr show ?thesis by (simp add: run_discovery_no_queries oracle_jobs_def)
  next
    case (Some queries)
    from Inr st have "read_settings (str_lower w) (preferences_file w) = Inr (excluded, breakers, min_score)"
      by simp
    from run_discovery_ok [OF this Some] candidates_distinct_urls [of w excluded breakers queries]
    show ?thesis
      by (simp add: oracle_jobs_append oracle_jobs_searches oracle_jobs_scoring comp_def)
  qed
qed

subsection \<open>Reposts of a rejected job\<close>

lemma scan_eq:
  "scan md5 keep results ({}, []) =
     (job_id md5 ` set (flattened results),
      map (candidate_of md5) (filter keep (unseen md5 {} (flattened results))))"
  by (simp add: scan_fold fold_visit)

lemma unseen_seen_job: "job_id md5 job \<in> seen \<Longrightarrow> unseen md5 seen (job # jobs) = unseen md5 seen jobs"
  by simp

lemma unseen_drop_repost:
  assumes "job_id md5 j2 = job_id md5 j1"
  shows "unseen md5 seen (xs @ j1 # ys @ j2 # zs) = unseen md5 seen (xs @ j1 # ys @ zs)"
proof -
  let ?pre = "xs @ j1 # ys"
  have "job_id md5 j2 \<in> seen \<union> job_id md5 ` set ?pre"
    using assms by simp
  then have "unseen md5 (seen \<union> job_id md5 ` set ?pre) (j2 # zs) =
      unseen md5 (seen \<union> job_id md5 ` set ?pre) zs"
    by (rule unseen_seen_job)
  then have "unseen md5 seen (?pre @ j2 # zs) = unseen md5 seen (?pre @ zs)"
    by (simp only: unseen_append [of md5 seen ?pre])
  then show ?thesis by simp
qed

lemma find_append_skip:
  "\<forall>x\<in>set xs. \<not> P x \<Longrightarrow> find P (xs @ ys) = find P ys"
  by (induction xs) auto

text \<open>
  Claim C10. The loop registers the external id of every job it visits, whatever the
  prefilter decides. Hence a later job with the canonical URL of an earlier one adds
  nothing: the loop ends in the same state as on the input without it. When the first
  job with a URL is rejected by the prefilter, no candidate has that URL. The jobs for
  which the run sends a request to the oracle have pairwise distinct canonical URLs.
\<close>

theorem rejected_job_blocks_reposts:
  "fst (scan md5 keep results ({}, [])) = job_id md5 ` set (flattened results)
   \<and> (flattened results = xs @ j1 # ys @ j2 # zs
        \<and> canonical_url j2 = canonical_url j1
        \<and> flattened results' = xs @ j1 # ys @ zs
      \<longrightarrow> scan md5 keep results ({}, []) = scan md5 keep results' ({}, []))
   \<and> (flattened results = xs @ j1 # ys
        \<and> (\<forall>x\<in>set xs. job_id md5 x \<noteq> job_id md5 j1)
        \<and> \<not> keep j1
      \<longrightarrow> (\<forall>c\<in>set (snd (scan md5 keep results ({}, []))). fst (snd c) \<noteq> canonical_url j1))
   \<and> distinct (map canonical_url (oracle_jobs (fst (run_discovery w))))"
proof (intro conjI impI ballI)
  show "fst (scan md5 keep results ({}, [])) = job_id md5 ` set (flattened results)"
    by (simp add: scan_eq)
  show "distinct (map canonical_url (oracle_jobs (fst (run_discovery w))))"
    by (rule oracle_calls_distinct_urls)
next
  assume a: "flattened results = xs @ j1 # ys @ j2 # zs
        \<and> canonical_url j2 = canonical_url j1
        \<and> flattened results' = xs @ j1 # ys @ zs"
  then have "job_id md5 j2 = job_id md5 j1" by (simp add: job_id_def)
  then have "unseen md5 {} (xs @ j1 # ys @ j2 # zs) = unseen md5 {} (xs @ j1 # ys @ zs)"
    by (rule unseen_drop_repost)
  moreover from a \<open>job_id md5 j2 = job_id md5 j1\<close>
  have "job_id md5 ` set (flattened results) = job_id md5 ` set (flattened results')"
    by auto
  ultimately show "scan md5 keep results ({}, []) = scan md5 keep results' ({}, [])"
    using a by (simp add: scan_eq)
next
  fix c
  assume a: "flattened results = xs @ j1 # ys
        \<and> (\<forall>x\<in>set xs. job_id md5 x \<noteq> job_id md5 j1)
        \<and> \<not> keep j1"
    and c: "c \<in> set (snd (scan md5 keep results ({}, [])))"
  from c obtain job where job: "job \<in> set (unseen md5 {} (flattened results))"
      and kept: "keep job" and c_def: "c = candidate_of md5 job"
    by (auto simp: scan_eq)
  show "fst (snd c) \<noteq> canonical_url j1"
  proof
    assume "fst (snd c) = canonical_url j1"
    with c_def have same: "job_id md5 job = job_id md5 j1" by (simp add: job_id_def)
    from unseen_first [OF job] a same
    have "find (\<lambda>x. job_id md5 x = job_id md5 j1) (xs @ j1 # ys) = Some job" by simp
    moreover from a have "find (\<lambda>x. job_id md5 x = job_id md5 j1) (xs @ j1 # ys) = Some j1"
      by (simp add: find_append_skip)
    ultimately have "job = j1" by simp
    with kept a show False by simp
  qed
qed

theorem rejected_job_blocks_reposts_witness:
  "\<not> prefilter ascii_lower office_manager {''office manager''} {}
   \<and> prefilter ascii_lower office_repost {''office manager''} {}
   \<and> canonical_url office_repost = canonical_url office_manager
   \<and> scan (\<lambda>u. u) (\<lambda>job. prefilter ascii_lower job {''office manager''} {})
        [Returned [office_manager, staff_pm], Raised, Returned [office_repost]] ({}, [])
      = ({''u1'', ''u3''}, [(''u3'', ''u3'', staff_pm)])"
proof -
  let ?keep = "\<lambda>job. prefilter ascii_lower job {''office manager''} {}"
  have rejected: "\<not> prefilter ascii_lower office_manager {''office manager''} {}" by code_simp
  have accepted: "prefilter ascii_lower office_repost {''office manager''} {}" by code_simp
  have same: "canonical_url office_repost = canonical_url office_manager" by code_simp
  have f1: "flattened [Returned [office_manager, staff_pm], Raised, Returned [office_repost]]
      = [] @ office_manager # [staff_pm] @ office_repost # []"
    by (simp add: flattened_def)
  have f2: "flattened [Returned [office_manager, staff_pm]] = [] @ office_manager # [staff_pm] @ []"
    by (simp add: flattened_def)
  have without: "scan (\<lambda>u. u) ?keep [Returned [office_manager, staff_pm]] ({}, [])
      = ({''u1'', ''u3''}, [(''u3'', ''u3'', staff_pm)])"
    by code_simp
  from rejected_job_blocks_reposts
    [of "\<lambda>u. u" ?keep "[Returned [office_manager, staff_pm], Raised, Returned [office_repost]]"
      "[]" office_manager "[staff_pm]" office_repost "[]" "[Returned [office_manager, staff_pm]]"]
    f1 f2 same
  have "scan (\<lambda>u. u) ?keep [Returned [office_manager, staff_pm], Raised, Returned [office_repost]] ({}, [])
      = scan (\<lambda>u. u) ?keep [Returned [office_manager, staff_pm]] ({}, [])"
    by blast
  with without rejected accepted same show ?thesis by simp
qed

subsection \<open>Canonical URL\<close>

lemma candidates_are_candidate_of:
  "c \<in> set (find_candidates w excluded breakers queries) \<Longrightarrow>
   c = candidate_of (md5_hexdigest w) (snd (snd c))
   \<and> prefilter (str_lower w) (snd (snd c)) excluded breakers"
  by (auto simp: find_candidates_eq)

text \<open>
  Claim C8, as the code has it. The canonical URL of a job is the link of the first
  apply option when the list of apply options is present and not empty and that link
  is present and not empty; in every other case it is the generic link, and the empty
  string when the job has no generic link. The external id of a candidate is the
  digest of exactly this string.
\<close>

theorem canonical_url_cases:
  "canonical_url job =
     (case apply_options job of
        Some (Some l # rest) \<Rightarrow> if l = [] then get_str (link job) [] else l
      | _ \<Rightarrow> get_str (link job) [])
   \<and> get_str (link job) [] = (case link job of None \<Rightarrow> [] | Some l \<Rightarrow> l)
   \<and> (\<forall>c\<in>set (find_candidates w excluded breakers queries).
         fst (snd c) = canonical_url (snd (snd c))
         \<and> fst c = md5_hexdigest w (canonical_url (snd (snd c))))"
proof (intro conjI ballI)
  show "canonical_url job =
     (case apply_options job of
        Some (Some l # rest) \<Rightarrow> if l = [] then get_str (link job) [] else l
      | _ \<Rightarrow> get_str (link job) [])"
    by (simp add: canonical_url_def get_str_def Let_def split: option.splits list.splits)
  show "get_str (link job) [] = (case link job of None \<Rightarrow> [] | Some l \<Rightarrow> l)"
    by (simp add: get_str_def)
next
  fix c assume "c \<in> set (find_candidates w excluded breakers queries)"
  then have "c = candidate_of (md5_hexdigest w) (snd (snd c))"
    by (simp add: candidates_are_candidate_of)
  then have "fst c = job_id (md5_hexdigest w) (snd (snd c))"
    and "fst (snd c) = canonical_url (snd (snd c))"
    by (metis candidate_of_sel(1), metis candidate_of_sel(2))
  then show "fst (snd c) = canonical_url (snd (snd c))"
    and "fst c = md5_hexdigest w (canonical_url (snd (snd c)))"
    by (simp_all add: job_id_def generate_external_id_def)
qed

theorem canonical_url_cases_witness:
  "canonical_url senior_pm = ''a2'' \<and> canonical_url staff_pm = ''u3''
   \<and> find_candidates scenario {} {} [''Senior PM'', ''Head of Product'', ''PM remote'']
     = [(''a2'', ''a2'', senior_pm_repost), (''u4'', ''u4'', lead_pm),
        (''u5'', ''u5'', junior_pm), (''u6'', ''u6'', principal_pm),
        (''u1'', ''u1'', office_manager), (''u3'', ''u3'', staff_pm),
        (''u8'', ''u8'', onsite_pm)]"
proof -
  have "canonical_url senior_pm = ''a2''"
    using canonical_url_cases [of senior_pm scenario "{}" "{}" "[]"]
    by (simp add: senior_pm_def plain_job_def)
  moreover have "canonical_url staff_pm = ''u3''"
    using canonical_url_cases [of staff_pm scenario "{}" "{}" "[]"]
    by (simp add: staff_pm_def plain_job_def get_str_def)
  moreover have "find_candidates scenario {} {} [''Senior PM'', ''Head of Product'', ''PM remote'']
     = [(''a2'', ''a2'', senior_pm_repost), (''u4'', ''u4'', lead_pm),
        (''u5'', ''u5'', junior_pm), (''u6'', ''u6'', principal_pm),
        (''u1'', ''u1'', office_manager), (''u3'', ''u3'', staff_pm),
        (''u8'', ''u8'', onsite_pm)]"
    by code_simp
  ultimately show ?thesis by simp
qed

text \<open>
  The claim as stated fails: the first apply option of this job has the empty link, and
  the canonical URL is the generic link of the job, not the empty string.
\<close>

theorem canonical_url_counterexample:
  "apply_options blank_apply_link = Some [Some []]
   \<and> canonical_url blank_apply_link = ''u7''
   \<and> canonical_url blank_apply_link \<noteq> []"
  by (simp add: blank_apply_link_def plain_job_def canonical_url_def get_str_def)

subsection \<open>What the run returns\<close>

lemma aggregate_no_error:
  "aggregate m scored acc = Inr out \<Longrightarrow> Returned cs \<in> set scored \<Longrightarrow>
   \<exists>x. surface m cs = Inr x"
proof (induction m scored acc rule: aggregate.induct)
  case (1 m acc)
  then show ?case by simp
next
  case (2 m scored acc)
  then show ?case by simp
next
  case (3 m cs' scored acc)
  then show ?case by (auto split: sum.splits option.splits)
qed

lemma run_discovery_Inr:
  assumes "snd (run_discovery w) = Inr out"
  obtains excluded breakers m queries all_jobs where
    "read_settings (str_lower w) (preferences_file w) = Inr (excluded, breakers, m)"
    "search_queries (preferences_file w) = Some queries"
    "aggregate m (map (score_task w) (find_candidates w excluded breakers queries)) [] = Inr all_jobs"
    "all_jobs = List.map_filter (entry_of m)
       (map (score_task w) (find_candidates w excluded breakers queries))"
    "out = sort_by_score all_jobs"
proof (cases "read_settings (str_lower w) (preferences_file w)")
  case (Inl e)
  with assms show ?thesis by (simp add: run_discovery_fail)
next
  case (Inr st)
  obtain excluded breakers m where st: "st = (excluded, breakers, m)"
    by (cases st) auto
  show ?thesis
  proof (cases "search_queries (preferences_file w)")
    case None
    with Inr assms show ?thesis by (simp add: run_discovery_no_queries)
  next
    case (Some queries)
    from Inr st have rs: "read_settings (str_lower w) (preferences_file w) = Inr (excluded, breakers, m)"
      by simp
    let ?scored = "map (score_task w) (find_candidates w excluded breakers queries)"
    from assms run_discovery_ok [OF rs Some]
    obtain all_jobs where agg: "aggregate m ?scored [] = Inr all_jobs"
      and out: "out = sort_by_score all_jobs"
      by (auto split: sum.splits)
    from aggregate_Inr [OF agg] have allj: "all_jobs = List.map_filter (entry_of m) ?scored"
      by simp
    from rs Some agg allj out show ?thesis by (rule that)
  qed
qed

lemma surface_Some:
  "surface m (c, sd) = Inr (Some e) \<Longrightarrow>
   external_id e = fst c \<and> url e = fst (snd c) \<and> raw_data e = snd (snd c) \<and> m \<le> score e
   \<and> (\<exists>v. subscript sd ''overall_score'' = Inr v \<and> numeric v = Some (score e))"
  by (cases c) (auto simp: surface_def make_entry_def split: sum.splits option.splits if_splits)

lemma entry_of_score_task:
  assumes "entry_of m (score_task w c) = Some e"
  shows "external_id e = fst c \<and> url e = fst (snd c) \<and> raw_data e = snd (snd c) \<and> m \<le> score e"
proof -
  from assms obtain sd where "score_task w c = Returned (c, sd)"
    by (cases c) (auto simp: score_task_def entry_of_def split: outcome.splits)
  with assms have "surface m (c, sd) = Inr (Some e)"
    by (auto simp: entry_of_def split: sum.splits option.splits)
  then show ?thesis by (auto dest: surface_Some)
qed

lemma set_map_filter: "set (List.map_filter f xs) = {y. \<exists>x\<in>set xs. f x = Some y}"
  by (induction xs) (auto split: option.splits)

lemma output_entry:
  assumes "snd (run_discovery w) = Inr out"
    and "read_settings (str_lower w) (preferences_file w) = Inr (excluded, breakers, m)"
    and "search_queries (preferences_file w) = Some queries"
    and "e \<in> set out"
  shows "\<exists>c\<in>set (find_candidates w excluded breakers queries).
           external_id e = fst c \<and> url e = fst (snd c) \<and> raw_data e = snd (snd c)
           \<and> m \<le> score e"
proof -
  from assms(1) obtain ex br m' qs all_jobs where
    "read_settings (str_lower w) (preferences_file w) = Inr (ex, br, m')"
    "search_queries (preferences_file w) = Some qs"
    "all_jobs = List.map_filter (entry_of m') (map (score_task w) (find_candidates w ex br qs))"
    "out = sort_by_score all_jobs"
    by (rule run_discovery_Inr)
  with assms(2,3) have "out = sort_by_score (List.map_filter (entry_of m)
      (map (score_task w) (find_candidates w excluded breakers queries)))"
    by simp
  with assms(4) obtain c where c: "c \<in> set (find_candidates w excluded breakers queries)"
    and "entry_of m (score_task w c) = Some e"
    by (auto simp: sort_by_score_set set_map_filter)
  from entry_of_score_task [OF this(2)] c show ?thesis by blast
qed

lemma read_settings_Inr:
  "read_settings lc p = Inr (excluded, breakers, m) \<Longrightarrow>
   \<exists>d kws l dbs s. p_discovery p = Some d \<and> exclude_keywords d = Some kws
     \<and> p_location p = Some l \<and> dealbreakers l = Some dbs
     \<and> p_scoring p = Some s \<and> minimum_score_to_surface s = Some m
     \<and> excluded = lc ` set kws \<and> breakers = lc ` set dbs"
  by (auto simp: read_settings_def required_def split: option.splits)

subsection \<open>The concrete run, evaluated\<close>

lemma scenario_settings:
  "read_settings (str_lower scenario) (preferences_file scenario) = Inr ({''office manager''}, {''onsite''}, 4 / 5)"
  by code_simp

lemma scenario_queries:
  "search_queries (preferences_file scenario) = Some [''PM remote'', ''Senior PM'', ''Head of Product'']"
  by code_simp

lemma scenario_candidates:
  "find_candidates scenario {''office manager''} {''onsite''}
     [''PM remote'', ''Senior PM'', ''Head of Product'']
   = [(''a2'', ''a2'', senior_pm), (''u3'', ''u3'', staff_pm), (''u4'', ''u4'', lead_pm),
      (''u5'', ''u5'', junior_pm), (''u6'', ''u6'', principal_pm)]"
  by code_simp

lemma scenario_result: "snd (run_discovery scenario) = Inr scenario_output"
  by code_simp

lemma scenario_calls:
  "fst (run_discovery scenario) =
     [SearchCall ''PM remote'', SearchCall ''Senior PM'', SearchCall ''Head of Product'',
      OracleCall senior_pm, OracleCall staff_pm, OracleCall lead_pm, OracleCall junior_pm,
      OracleCall principal_pm]"
  by code_simp

subsection \<open>Prefilter\<close>

text \<open>
  Claim C4. Whatever function \<^verbatim>\<open>str.lower\<close> is, the prefilter accepts a job exactly when
  no excluded keyword is a substring of its lower-cased title and either no dealbreaker
  is a substring of its lower-cased location or \<^verbatim>\<open>remote\<close> is a substring of its
  lower-cased description. No job of the output of a run has a lower-cased title that
  contains a lower-cased excluded keyword of the preferences.
\<close>

theorem prefilter_rule:
  "(prefilter lc job excluded breakers \<longleftrightarrow>
      (\<forall>kw\<in>excluded. \<not> sublist kw (lc (get_str (title job) [])))
      \<and> ((\<forall>db\<in>breakers. \<not> sublist db (lc (get_str (location job) [])))
         \<or> sublist ''remote'' (lc (get_str (description job) []))))
   \<and> (snd (run_discovery w) = Inr out
        \<and> p_discovery (preferences_file w) = Some d
        \<and> exclude_keywords d = Some kws
      \<longrightarrow> (\<forall>e\<in>set out. \<forall>kw\<in>set kws.
             \<not> sublist (str_lower w kw) (str_lower w (get_str (title (raw_data e)) []))))"
proof (intro conjI impI ballI)
  show "prefilter lc job excluded breakers \<longleftrightarrow>
      (\<forall>kw\<in>excluded. \<not> sublist kw (lc (get_str (title job) [])))
      \<and> ((\<forall>db\<in>breakers. \<not> sublist db (lc (get_str (location job) [])))
         \<or> sublist ''remote'' (lc (get_str (description job) [])))"
    by (auto simp: prefilter_def Let_def)
next
  fix e kw
  assume a: "snd (run_discovery w) = Inr out
        \<and> p_discovery (preferences_file w) = Some d
        \<and> exclude_keywords d = Some kws"
    and e: "e \<in> set out" and kw: "kw \<in> set kws"
  from a obtain ex br m qs where
    rs: "read_settings (str_lower w) (preferences_file w) = Inr (ex, br, m)"
    and qs: "search_queries (preferences_file w) = Some qs"
    by (auto elim: run_discovery_Inr)
  from read_settings_Inr [OF rs] a have ex: "ex = str_lower w ` set kws" by auto
  from a rs qs e obtain c where "c \<in> set (find_candidates w ex br qs)"
    and "raw_data e = snd (snd c)"
    by (auto dest: output_entry)
  then have "prefilter (str_lower w) (raw_data e) ex br"
    by (simp add: candidates_are_candidate_of)
  then have "\<forall>k\<in>ex. \<not> sublist k (str_lower w (get_str (title (raw_data e)) []))"
    by (auto simp: prefilter_def Let_def split: if_splits)
  with ex kw
  show "\<not> sublist (str_lower w kw) (str_lower w (get_str (title (raw_data e)) []))"
    by simp
qed

theorem prefilter_rule_witness:
  "\<not> prefilter ascii_lower office_manager {''office manager''} {''onsite''}
   \<and> \<not> prefilter ascii_lower onsite_pm {''office manager''} {''onsite''}
   \<and> prefilter ascii_lower lead_pm {''office manager''} {''onsite''}
   \<and> snd (run_discovery scenario) = Inr scenario_output
   \<and> list_all
        (\<lambda>e. \<not> sublist ''office manager'' (ascii_lower (get_str (title (raw_data e)) [])))
        scenario_output"
proof -
  let ?E = "{''office manager''}" and ?B = "{''onsite''}"
  let ?d = "\<lparr>exclude_keywords = Some [''Office Manager'']\<rparr>"
  have d: "p_discovery (preferences_file scenario) = Some ?d"
    by (simp add: scenario_def scenario_prefs_def)
  have sl: "str_lower scenario = ascii_lower" by (simp add: scenario_def)
  have l: "ascii_lower ''Office Manager'' = ''office manager''" by code_simp
  have n1: "\<not> ((\<forall>kw\<in>?E. \<not> sublist kw (ascii_lower (get_str (title office_manager) [])))
      \<and> ((\<forall>db\<in>?B. \<not> sublist db (ascii_lower (get_str (location office_manager) [])))
         \<or> sublist ''remote'' (ascii_lower (get_str (description office_manager) []))))"
    by code_simp
  have n2: "\<not> ((\<forall>kw\<in>?E. \<not> sublist kw (ascii_lower (get_str (title onsite_pm) [])))
      \<and> ((\<forall>db\<in>?B. \<not> sublist db (ascii_lower (get_str (location onsite_pm) [])))
         \<or> sublist ''remote'' (ascii_lower (get_str (description onsite_pm) []))))"
    by code_simp
  have y: "(\<forall>kw\<in>?E. \<not> sublist kw (ascii_lower (get_str (title lead_pm) [])))
      \<and> ((\<forall>db\<in>?B. \<not> sublist db (ascii_lower (get_str (location lead_pm) [])))
         \<or> sublist ''remote'' (ascii_lower (get_str (description lead_pm) [])))"
    by code_simp
  from n1 prefilter_rule [of ascii_lower office_manager ?E ?B scenario scenario_output
      ?d "[''Office Manager'']"]
  have r1: "\<not> prefilter ascii_lower office_manager ?E ?B" by blast
  from n2 prefilter_rule [of ascii_lower onsite_pm ?E ?B scenario scenario_output
      ?d "[''Office Manager'']"]
  have r2: "\<not> prefilter ascii_lower onsite_pm ?E ?B" by blast
  from y scenario_result d prefilter_rule [of ascii_lower lead_pm ?E ?B scenario scenario_output
      ?d "[''Office Manager'']"]
  have r3: "prefilter ascii_lower lead_pm ?E ?B"
    and "\<forall>e\<in>set scenario_output. \<forall>kw\<in>set [''Office Manager''].
       \<not> sublist (str_lower scenario kw) (str_lower scenario (get_str (title (raw_data e)) []))"
    by (blast, simp)
  then have "list_all
        (\<lambda>e. \<not> sublist ''office manager'' (ascii_lower (get_str (title (raw_data e)) [])))
        scenario_output"
    by (simp add: list_all_iff l sl)
  with r1 r2 r3 scenario_result show ?thesis by simp
qed

subsection \<open>Threshold\<close>

lemma kept_candidate_surfaces:
  assumes agg: "aggregate m (map (score_task w) cands) [] = Inr all_jobs"
    and c: "c \<in> set cands"
    and sj: "snd (score_job w (snd (snd c))) = Returned sd"
    and v: "subscript sd ''overall_score'' = Inr v"
    and r: "numeric v = Some r"
    and ge: "m \<le> r"
  shows "\<exists>e\<in>set all_jobs. external_id e = fst c \<and> raw_data e = snd (snd c) \<and> score e = r"
proof -
  from sj have st: "score_task w c = Returned (c, sd)"
    by (cases c) (simp add: score_task_def)
  with c have "Returned (c, sd) \<in> set (map (score_task w) cands)" by force
  with agg obtain x where x: "surface m (c, sd) = Inr x" by (blast dest: aggregate_no_error)
  with v r ge obtain b where "x = Some (make_entry c r b)"
    by (auto simp: surface_def split: sum.splits)
  with x st have "entry_of m (score_task w c) = Some (make_entry c r b)"
    by (simp add: entry_of_def)
  with c have "make_entry c r b \<in> set (List.map_filter (entry_of m) (map (score_task w) cands))"
    by (auto simp: set_map_filter)
  with aggregate_Inr [OF agg] have "make_entry c r b \<in> set all_jobs" by simp
  moreover have "external_id (make_entry c r b) = fst c"
    "raw_data (make_entry c r b) = snd (snd c)" "score (make_entry c r b) = r"
    by (cases c; simp add: make_entry_def)+
  ultimately show ?thesis by blast
qed

text \<open>
  Runs that return a list. Every entry of the list has a score at least the
  \<^verbatim>\<open>minimum_score_to_surface\<close> of the preferences, and every candidate whose scoring task
  returned a reply with a numeric \<^verbatim>\<open>overall_score\<close> at least that minimum has an entry
  in the list, with its external id, its job and that score. A run that raises returns
  no list: see below.
\<close>

theorem threshold_filter:
  "(read_settings (str_lower w) (preferences_file w) = Inr (excluded, breakers, m)
      \<longrightarrow> (\<exists>s. p_scoring (preferences_file w) = Some s \<and> minimum_score_to_surface s = Some m))
   \<and> (snd (run_discovery w) = Inr out
        \<and> read_settings (str_lower w) (preferences_file w) = Inr (excluded, breakers, m)
        \<and> search_queries (preferences_file w) = Some queries
      \<longrightarrow> (\<forall>e\<in>set out. m \<le> score e)
          \<and> (\<forall>c\<in>set (find_candidates w excluded breakers queries). \<forall>sd v r.
                snd (score_job w (snd (snd c))) = Returned sd
                \<and> subscript sd ''overall_score'' = Inr v \<and> numeric v = Some r \<and> m \<le> r
              \<longrightarrow> (\<exists>e\<in>set out.
                    external_id e = fst c \<and> raw_data e = snd (snd c) \<and> score e = r)))"
proof (intro conjI impI ballI allI)
  assume "read_settings (str_lower w) (preferences_file w) = Inr (excluded, breakers, m)"
  from read_settings_Inr [OF this]
  show "\<exists>s. p_scoring (preferences_file w) = Some s \<and> minimum_score_to_surface s = Some m"
    by blast
next
  fix e
  assume "snd (run_discovery w) = Inr out
        \<and> read_settings (str_lower w) (preferences_file w) = Inr (excluded, breakers, m)
        \<and> search_queries (preferences_file w) = Some queries"
    and "e \<in> set out"
  then show "m \<le> score e" by (auto dest: output_entry)
next
  fix c sd v r
  assume a: "snd (run_discovery w) = Inr out
        \<and> read_settings (str_lower w) (preferences_file w) = Inr (excluded, breakers, m)
        \<and> search_queries (preferences_file w) = Some queries"
    and c: "c \<in> set (find_candidates w excluded breakers queries)"
    and s: "snd (score_job w (snd (snd c))) = Returned sd
                \<and> subscript sd ''overall_score'' = Inr v \<and> numeric v = Some r \<and> m \<le> r"
  from a obtain ex br m' qs all_jobs where
    "read_settings (str_lower w) (preferences_file w) = Inr (ex, br, m')"
    "search_queries (preferences_file w) = Some qs"
    "aggregate m' (map (score_task w) (find_candidates w ex br qs)) [] = Inr all_jobs"
    "out = sort_by_score all_jobs"
    by (auto elim: run_discovery_Inr)
  with a have agg: "aggregate m (map (score_task w)
        (find_candidates w excluded breakers queries)) [] = Inr all_jobs"
    and out: "set out = set all_jobs"
    by (simp_all add: sort_by_score_set)
  from kept_candidate_surfaces [OF agg c] s out
  show "\<exists>e\<in>set out. external_id e = fst c \<and> raw_data e = snd (snd c) \<and> score e = r"
    by simp
qed

theorem threshold_filter_witness:
  "snd (run_discovery scenario) = Inr scenario_output
   \<and> list_all (\<lambda>e. 4 / 5 \<le> score e) scenario_output
   \<and> snd (score_job scenario lead_pm) = reply (91 / 100)
   \<and> snd (score_job scenario junior_pm) = reply (1 / 2)
   \<and> list_ex (\<lambda>e. external_id e = ''u4'' \<and> raw_data e = lead_pm \<and> score e = 91 / 100)
        scenario_output
   \<and> map external_id scenario_output = [''u3'', ''u4'', ''a2'']"
proof -
  note t = threshold_filter [of scenario "{''office manager''}" "{''onsite''}" "4 / 5"
      scenario_output "[''PM remote'', ''Senior PM'', ''Head of Product'']"]
  from t scenario_result scenario_settings scenario_queries
  have all: "\<forall>e\<in>set scenario_output. 4 / 5 \<le> score e"
    and each: "\<forall>c\<in>set (find_candidates scenario {''office manager''} {''onsite''}
          [''PM remote'', ''Senior PM'', ''Head of Product'']). \<forall>sd v r.
        snd (score_job scenario (snd (snd c))) = Returned sd
        \<and> subscript sd ''overall_score'' = Inr v \<and> numeric v = Some r \<and> 4 / 5 \<le> r
        \<longrightarrow> (\<exists>e\<in>set scenario_output.
              external_id e = fst c \<and> raw_data e = snd (snd c) \<and> score e = r)"
    by blast+
  have lead: "snd (score_job scenario lead_pm) = reply (91 / 100)" by code_simp
  have junior: "snd (score_job scenario junior_pm) = reply (1 / 2)" by code_simp
  have "(''u4'', ''u4'', lead_pm) \<in> set (find_candidates scenario {''office manager''} {''onsite''}
          [''PM remote'', ''Senior PM'', ''Head of Product''])"
    by (simp add: scenario_candidates)
  moreover have "subscript (JObj [(''overall_score'', JNum (91 / 100)), (''breakdown'', JObj [])])
      ''overall_score'' = Inr (JNum (91 / 100))"
    by (simp add: subscript_def)
  moreover have "numeric (JNum (91 / 100)) = Some (91 / 100)" by (simp add: numeric_def)
  ultimately have "\<exists>e\<in>set scenario_output.
      external_id e = ''u4'' \<and> raw_data e = lead_pm \<and> score e = 91 / 100"
    using each lead by (fastforce simp: reply_def)
  then have "list_ex (\<lambda>e. external_id e = ''u4'' \<and> raw_data e = lead_pm \<and> score e = 91 / 100)
        scenario_output"
    by (simp add: list_ex_iff)
  moreover have "map external_id scenario_output = [''u3'', ''u4'', ''a2'']"
    by (simp add: scenario_output_def make_entry_def)
  ultimately show ?thesis
    using all lead junior scenario_result by (simp add: list_all_iff)
qed

text \<open>
  Claim C7 at a concrete run. In the run in which the oracle answers \<open>junior_pm\<close> with an
  object that has no \<^verbatim>\<open>overall_score\<close>, the candidate \<open>lead_pm\<close> is scored 0.91 by a
  well-formed reply and the minimum is 0.8. The run raises \<^verbatim>\<open>KeyError\<close> at line 198 for
  the other candidate and returns nothing, so the candidate that meets the threshold
  is not output.
\<close>

theorem scored_candidate_not_surfaced:
  "read_settings (str_lower scenario_malformed) (preferences_file scenario_malformed)
     = Inr ({''office manager''}, {''onsite''}, 4 / 5)
   \<and> (''u4'', ''u4'', lead_pm)
       \<in> set (find_candidates scenario_malformed {''office manager''} {''onsite''}
                [''PM remote'', ''Senior PM'', ''Head of Product''])
   \<and> snd (score_job scenario_malformed lead_pm) = reply (91 / 100)
   \<and> well_formed (JObj [(''overall_score'', JNum (91 / 100)), (''breakdown'', JObj [])])
   \<and> (4 / 5 :: rat) \<le> 91 / 100
   \<and> snd (run_discovery scenario_malformed) = Inl (KeyError ''overall_score'')"
  by code_simp

subsection \<open>Ranking\<close>

lemma raw_data_entries_subseq:
  "subseq (map raw_data (List.map_filter (entry_of m) (map (score_task w) cands)))
     (map (snd \<circ> snd) cands)"
proof (induction cands)
  case Nil
  show ?case by simp
next
  case (Cons c cands)
  show ?case
  proof (cases "entry_of m (score_task w c)")
    case None
    with Cons.IH show ?thesis by auto
  next
    case (Some e)
    from entry_of_score_task [OF Some] have "raw_data e = snd (snd c)" by simp
    with Some Cons.IH show ?thesis by simp
  qed
qed

lemma candidates_subseq_deduplicate:
  "subseq (map (snd \<circ> snd) (find_candidates w excluded breakers queries))
     (map (snd \<circ> snd) (deduplicate (md5_hexdigest w) (flattened (map (google_jobs w) queries))))"
  by (simp add: find_candidates_dedup subseq_map)

lemma run_discovery_same:
  assumes p: "preferences_file w' = preferences_file w"
    and l: "str_lower w' = str_lower w"
    and h: "md5_hexdigest w' = md5_hexdigest w"
    and o: "claude w' = claude w"
    and s: "\<And>qs. flattened (map (google_jobs w') qs) = flattened (map (google_jobs w) qs)"
  shows "run_discovery w' = run_discovery w"
proof -
  have fc: "find_candidates w' ex br qs = find_candidates w ex br qs" for ex br qs
    by (simp add: find_candidates_eq h l s)
  have sj: "score_job w' = score_job w"
    by (simp add: fun_eq_iff score_job_def p o split: sum.splits)
  have st: "score_task w' = score_task w"
    by (simp add: fun_eq_iff score_task_def sj)
  show ?thesis
  proof (cases "read_settings (str_lower w) (preferences_file w)")
    case (Inl e)
    then show ?thesis by (simp add: run_discovery_fail p l)
  next
    case (Inr settings)
    obtain ex br m where settings: "settings = (ex, br, m)" by (cases settings) auto
    show ?thesis
    proof (cases "search_queries (preferences_file w)")
      case None
      with Inr show ?thesis by (simp add: run_discovery_no_queries p l)
    next
      case (Some qs)
      from Inr settings have rs: "read_settings (str_lower w) (preferences_file w) = Inr (ex, br, m)" by simp
      from rs Some have "read_settings (str_lower w') (preferences_file w') = Inr (ex, br, m)"
        and "search_queries (preferences_file w') = Some qs"
        by (simp_all add: p l)
      from run_discovery_ok [OF this] run_discovery_ok [OF rs Some]
      show ?thesis by (simp add: fc sj st)
    qed
  qed
qed

lemma completion_order_irrelevant:
  "run_discovery (w\<lparr>search_done_at := f, score_done_at := g\<rparr>) = run_discovery w"
  by (rule run_discovery_same) simp_all

text \<open>
  Claim C3. The list a run returns is sorted by score, highest first. For every score,
  the jobs of the entries with that score stand in the order in which the deduplication
  kept them. The result does not depend on the times at which the concurrent searches
  and scoring calls complete.
\<close>

theorem ranking_is_stable:
  "(snd (run_discovery w) = Inr out \<and> search_queries (preferences_file w) = Some queries
      \<longrightarrow> sorted_wrt (\<lambda>a b. score b \<le> score a) out
          \<and> (\<forall>k. subseq (map raw_data (filter (\<lambda>e. score e = k) out))
                 (map (snd \<circ> snd)
                   (deduplicate (md5_hexdigest w) (flattened (map (google_jobs w) queries))))))
   \<and> run_discovery (w\<lparr>search_done_at := f, score_done_at := g\<rparr>) = run_discovery w"
proof (intro conjI impI allI)
  show "run_discovery (w\<lparr>search_done_at := f, score_done_at := g\<rparr>) = run_discovery w"
    by (rule completion_order_irrelevant)
next
  assume a: "snd (run_discovery w) = Inr out \<and> search_queries (preferences_file w) = Some queries"
  then obtain ex br m qs all_jobs where
    qs: "search_queries (preferences_file w) = Some qs"
    and allj: "all_jobs = List.map_filter (entry_of m) (map (score_task w) (find_candidates w ex br qs))"
    and out: "out = sort_by_score all_jobs"
    by (auto elim: run_discovery_Inr)
  from out show "sorted_wrt (\<lambda>a b. score b \<le> score a) out"
    by (simp add: sort_by_score_sorted)
  fix k
  from a qs have [simp]: "qs = queries" by simp
  have "filter (\<lambda>e. score e = k) out = filter (\<lambda>e. score e = k) all_jobs"
    using out by (simp add: sort_by_score_stable)
  then have "subseq (map raw_data (filter (\<lambda>e. score e = k) out)) (map raw_data all_jobs)"
    by (simp add: subseq_map)
  also have "subseq (map raw_data all_jobs) (map (snd \<circ> snd) (find_candidates w ex br queries))"
    using allj by (simp add: raw_data_entries_subseq)
  also have "subseq (map (snd \<circ> snd) (find_candidates w ex br queries))
      (map (snd \<circ> snd) (deduplicate (md5_hexdigest w) (flattened (map (google_jobs w) queries))))"
    by (rule candidates_subseq_deduplicate)
  finally show "subseq (map raw_data (filter (\<lambda>e. score e = k) out))
      (map (snd \<circ> snd) (deduplicate (md5_hexdigest w) (flattened (map (google_jobs w) queries))))" .
qed

theorem ranking_is_stable_witness:
  "snd (run_discovery scenario) = Inr scenario_output
   \<and> map score scenario_output = [91 / 100, 91 / 100, 17 / 20]
   \<and> sorted_wrt (\<lambda>a b. score b \<le> score a) scenario_output
   \<and> map raw_data (filter (\<lambda>e. score e = 91 / 100) scenario_output) = [staff_pm, lead_pm]
   \<and> subseq [staff_pm, lead_pm]
       (map (snd \<circ> snd) (deduplicate (md5_hexdigest scenario)
         (flattened (map (google_jobs scenario) [''PM remote'', ''Senior PM'', ''Head of Product'']))))
   \<and> run_discovery (scenario\<lparr>search_done_at := (\<lambda>q. 0), score_done_at := (\<lambda>job. 0)\<rparr>)
       = run_discovery scenario"
proof -
  note t = ranking_is_stable [of scenario scenario_output
      "[''PM remote'', ''Senior PM'', ''Head of Product'']" "\<lambda>q. 0" "\<lambda>job. 0"]
  have ties: "map raw_data (filter (\<lambda>e. score e = 91 / 100) scenario_output) = [staff_pm, lead_pm]"
    by (simp add: scenario_output_def make_entry_def)
  have scores: "map score scenario_output = [91 / 100, 91 / 100, 17 / 20]"
    by (simp add: scenario_output_def make_entry_def)
  from t scenario_result scenario_queries
  have "sorted_wrt (\<lambda>a b. score b \<le> score a) scenario_output"
    and "\<forall>k. subseq (map raw_data (filter (\<lambda>e. score e = k) scenario_output))
        (map (snd \<circ> snd) (deduplicate (md5_hexdigest scenario)
          (flattened (map (google_jobs scenario) [''PM remote'', ''Senior PM'', ''Head of Product'']))))"
    and "run_discovery (scenario\<lparr>search_done_at := (\<lambda>q. 0), score_done_at := (\<lambda>job. 0)\<rparr>)
       = run_discovery scenario"
    by blast+
  with ties scores scenario_result show ?thesis by metis
qed

subsection \<open>Provider failures\<close>

lemma flattened_absorb: "flattened (map (absorb provider) qs) = flattened (map provider qs)"
  by (induction qs) (auto simp: flattened_def absorb_def split: outcome.splits)

lemma flattened_succeeded:
  "flattened (map provider (filter (\<lambda>q. provider q \<noteq> Raised) qs)) = flattened (map provider qs)"
  by (induction qs) (auto simp: flattened_def split: outcome.splits)

lemma read_settings_queries:
  "read_settings lc (p\<lparr>search_queries := qs\<rparr>) = read_settings lc p"
  by (simp add: read_settings_def cong: sum.case_cong)

lemma scoring_context_queries:
  "scoring_context (p\<lparr>search_queries := qs\<rparr>) = scoring_context p"
  by (simp add: scoring_context_def cong: sum.case_cong)

lemma without_failed_queries:
  assumes "search_queries (preferences_file w) = Some qs"
  shows "snd (run_discovery (w\<lparr>preferences_file :=
            (preferences_file w)\<lparr>search_queries :=
               Some (filter (\<lambda>q. google_jobs w q \<noteq> Raised) qs)\<rparr>\<rparr>))
         = snd (run_discovery w)"
proof -
  let ?qs' = "filter (\<lambda>q. google_jobs w q \<noteq> Raised) qs"
  let ?w' = "w\<lparr>preferences_file := (preferences_file w)\<lparr>search_queries := Some ?qs'\<rparr>\<rparr>"
  have sj: "score_job ?w' = score_job w"
    by (simp add: fun_eq_iff score_job_def scoring_context_queries cong: sum.case_cong)
  have st: "score_task ?w' = score_task w"
    by (simp add: fun_eq_iff score_task_def sj)
  have fc: "find_candidates ?w' ex br ?qs' = find_candidates w ex br qs" for ex br
    by (simp add: find_candidates_eq flattened_succeeded)
  show ?thesis
  proof (cases "read_settings (str_lower w) (preferences_file w)")
    case (Inl e)
    then show ?thesis by (simp add: run_discovery_fail read_settings_queries)
  next
    case (Inr settings)
    obtain ex br m where "settings = (ex, br, m)" by (cases settings) auto
    with Inr have rs: "read_settings (str_lower w) (preferences_file w) = Inr (ex, br, m)" by simp
    then have "read_settings (str_lower ?w') (preferences_file ?w') = Inr (ex, br, m)"
      and "search_queries (preferences_file ?w') = Some ?qs'"
      by (simp_all add: read_settings_queries)
    from run_discovery_ok [OF this] run_discovery_ok [OF rs assms]
    show ?thesis by (simp add: fc st)
  qed
qed

text \<open>
  Claim C6. A query whose search fails contributes no job: the jobs visited are those
  of the searches that returned, in query order. The run with failing searches is the
  run in which those searches return the empty list, calls and result alike, and its
  result is that of the run from which the failing queries are left out. So the jobs of
  the other queries are deduplicated, prefiltered, scored and ranked as they would be
  otherwise, and a failing search makes no run raise.
\<close>

theorem provider_failure_absorbed:
  "find_candidates w excluded breakers queries =
     filter (\<lambda>c. prefilter (str_lower w) (snd (snd c)) excluded breakers)
       (deduplicate (md5_hexdigest w)
         (concat (map (\<lambda>q. case google_jobs w q of Raised \<Rightarrow> [] | Returned jobs \<Rightarrow> jobs)
            queries)))
   \<and> run_discovery (w\<lparr>google_jobs := absorb (google_jobs w)\<rparr>) = run_discovery w
   \<and> (search_queries (preferences_file w) = Some queries
      \<longrightarrow> snd (run_discovery (w\<lparr>preferences_file :=
                 (preferences_file w)\<lparr>search_queries :=
                    Some (filter (\<lambda>q. google_jobs w q \<noteq> Raised) queries)\<rparr>\<rparr>))
          = snd (run_discovery w))"
proof (intro conjI impI)
  show "find_candidates w excluded breakers queries =
     filter (\<lambda>c. prefilter (str_lower w) (snd (snd c)) excluded breakers)
       (deduplicate (md5_hexdigest w)
         (concat (map (\<lambda>q. case google_jobs w q of Raised \<Rightarrow> [] | Returned jobs \<Rightarrow> jobs)
            queries)))"
    by (simp add: find_candidates_dedup flattened_def comp_def)
  show "run_discovery (w\<lparr>google_jobs := absorb (google_jobs w)\<rparr>) = run_discovery w"
    by (rule run_discovery_same) (simp_all add: flattened_absorb)
next
  assume "search_queries (preferences_file w) = Some queries"
  then show "snd (run_discovery (w\<lparr>preferences_file :=
                 (preferences_file w)\<lparr>search_queries :=
                    Some (filter (\<lambda>q. google_jobs w q \<noteq> Raised) queries)\<rparr>\<rparr>))
          = snd (run_discovery w)"
    by (rule without_failed_queries)
qed

theorem provider_failure_absorbed_witness:
  "google_jobs scenario ''Head of Product'' = Raised
   \<and> search_queries (preferences_file scenario)
       = Some [''PM remote'', ''Senior PM'', ''Head of Product'']
   \<and> filter (\<lambda>q. google_jobs scenario q \<noteq> Raised) [''PM remote'', ''Senior PM'', ''Head of Product'']
       = [''PM remote'', ''Senior PM'']
   \<and> snd (run_discovery (scenario\<lparr>preferences_file :=
          (preferences_file scenario)\<lparr>search_queries := Some [''PM remote'', ''Senior PM'']\<rparr>\<rparr>))
       = Inr scenario_output
   \<and> snd (run_discovery (scenario\<lparr>google_jobs := absorb (google_jobs scenario)\<rparr>))
       = Inr scenario_output"
proof -
  note t = provider_failure_absorbed [of scenario "{}" "{}"
      "[''PM remote'', ''Senior PM'', ''Head of Product'']"]
  have failed: "google_jobs scenario ''Head of Product'' = Raised"
    by (simp add: scenario_def)
  have succeeded: "filter (\<lambda>q. google_jobs scenario q \<noteq> Raised)
      [''PM remote'', ''Senior PM'', ''Head of Product''] = [''PM remote'', ''Senior PM'']"
    by (simp add: scenario_def)
  from t scenario_queries
  have "snd (run_discovery (scenario\<lparr>preferences_file :=
          (preferences_file scenario)\<lparr>search_queries :=
            Some (filter (\<lambda>q. google_jobs scenario q \<noteq> Raised)
              [''PM remote'', ''Senior PM'', ''Head of Product''])\<rparr>\<rparr>))
       = snd (run_discovery scenario)"
    and "run_discovery (scenario\<lparr>google_jobs := absorb (google_jobs scenario)\<rparr>)
       = run_discovery scenario"
    by blast+
  with failed succeeded scenario_queries scenario_result show ?thesis by simp
qed

subsection \<open>Missing preference fields\<close>

lemma startup_fields_read:
  "startup_fields_present p \<longleftrightarrow>
     (\<exists>settings. read_settings lc p = Inr settings) \<and> search_queries p \<noteq> None"
  by (auto simp: startup_fields_present_def read_settings_def required_def split: option.splits)

lemma context_fields_read:
  "context_fields_present p \<longleftrightarrow> (\<exists>ctx. scoring_context p = Inr ctx)"
  by (auto simp: context_fields_present_def scoring_context_def required_def split: option.splits)

lemma read_settings_error: "read_settings lc p = Inl e \<Longrightarrow> \<exists>k. e = KeyError k"
  by (auto simp: read_settings_def required_def split: option.splits)

lemma aggregate_all_raised:
  "\<forall>r\<in>set scored. r = Raised \<Longrightarrow> aggregate m scored acc = Inr acc"
  by (induction m scored acc rule: aggregate.induct) auto

text \<open>
  Claim C5, as the code has it. The fields read before the searches start are
  \<^verbatim>\<open>discovery.exclude_keywords\<close>, \<^verbatim>\<open>location.dealbreakers\<close>,
  \<^verbatim>\<open>scoring.minimum_score_to_surface\<close> and \<^verbatim>\<open>search_queries\<close>. When one of them is
  missing the run raises a \<^verbatim>\<open>KeyError\<close> and has made no external call, neither a search
  nor an oracle request.
\<close>

theorem missing_startup_field_is_fatal:
  "(startup_fields_present p \<longleftrightarrow>
      (\<exists>d kws l dbs s m qs.
         p_discovery p = Some d \<and> exclude_keywords d = Some kws
         \<and> p_location p = Some l \<and> dealbreakers l = Some dbs
         \<and> p_scoring p = Some s \<and> minimum_score_to_surface s = Some m
         \<and> search_queries p = Some qs))
   \<and> (\<not> startup_fields_present (preferences_file w)
      \<longrightarrow> fst (run_discovery w) = [] \<and> (\<exists>k. snd (run_discovery w) = Inl (KeyError k)))"
proof (intro conjI impI)
  show "startup_fields_present p \<longleftrightarrow>
      (\<exists>d kws l dbs s m qs.
         p_discovery p = Some d \<and> exclude_keywords d = Some kws
         \<and> p_location p = Some l \<and> dealbreakers l = Some dbs
         \<and> p_scoring p = Some s \<and> minimum_score_to_surface s = Some m
         \<and> search_queries p = Some qs)"
    by (auto simp: startup_fields_present_def split: option.splits)
next
  assume missing: "\<not> startup_fields_present (preferences_file w)"
  have "run_discovery w = ([], snd (run_discovery w)) \<and> (\<exists>k. snd (run_discovery w) = Inl (KeyError k))"
  proof (cases "read_settings (str_lower w) (preferences_file w)")
    case (Inl e)
    with read_settings_error [OF Inl] show ?thesis by (auto simp: run_discovery_fail)
  next
    case (Inr settings)
    with missing have "search_queries (preferences_file w) = None"
      by (cases settings) (auto simp: startup_fields_read [of _ "str_lower w"])
    with Inr show ?thesis by (simp add: run_discovery_no_queries)
  qed
  then show "fst (run_discovery w) = []" and "\<exists>k. snd (run_discovery w) = Inl (KeyError k)"
    by (metis fst_conv, blast)
qed

theorem missing_startup_field_is_fatal_witness:
  "\<not> startup_fields_present (scenario_prefs\<lparr>search_queries := None\<rparr>)
   \<and> run_discovery (scenario\<lparr>preferences_file := scenario_prefs\<lparr>search_queries := None\<rparr>\<rparr>)
       = ([], Inl (KeyError ''search_queries''))
   \<and> \<not> startup_fields_present (scenario_prefs\<lparr>p_location := Some \<lparr>requirement = None, dealbreakers = None\<rparr>\<rparr>)
   \<and> fst (run_discovery (scenario\<lparr>preferences_file :=
            scenario_prefs\<lparr>p_location := Some \<lparr>requirement = None, dealbreakers = None\<rparr>\<rparr>\<rparr>)) = []
   \<and> isl (snd (run_discovery (scenario\<lparr>preferences_file :=
            scenario_prefs\<lparr>p_location := Some \<lparr>requirement = None, dealbreakers = None\<rparr>\<rparr>\<rparr>)))"
proof -
  let ?p1 = "scenario_prefs\<lparr>search_queries := None\<rparr>"
  let ?p2 = "scenario_prefs\<lparr>p_location := Some \<lparr>requirement = None, dealbreakers = None\<rparr>\<rparr>"
  have m1: "\<not> startup_fields_present ?p1"
    by (simp add: startup_fields_present_def)
  have m2: "\<not> startup_fields_present ?p2"
    by (simp add: startup_fields_present_def)
  have r1: "run_discovery (scenario\<lparr>preferences_file := ?p1\<rparr>) = ([], Inl (KeyError ''search_queries''))"
    by code_simp
  from m2 missing_startup_field_is_fatal [of ?p2 "scenario\<lparr>preferences_file := ?p2\<rparr>"]
  have "fst (run_discovery (scenario\<lparr>preferences_file := ?p2\<rparr>)) = []"
    and "\<exists>k. snd (run_discovery (scenario\<lparr>preferences_file := ?p2\<rparr>)) = Inl (KeyError k)"
    by simp_all
  then have "fst (run_discovery (scenario\<lparr>preferences_file := ?p2\<rparr>)) = []"
    and "isl (snd (run_discovery (scenario\<lparr>preferences_file := ?p2\<rparr>)))"
    by auto
  with m1 m2 r1 show ?thesis by simp
qed

text \<open>
  The claim as stated fails: the preferences of this run have no \<^verbatim>\<open>target_titles\<close>, a
  field of the scoring context. The three searches are made and the run returns the
  empty list instead of raising.
\<close>

theorem missing_context_field_counterexample:
  "target_titles (preferences_file scenario_no_titles) = None
   \<and> fst (run_discovery scenario_no_titles)
       = [SearchCall ''PM remote'', SearchCall ''Senior PM'', SearchCall ''Head of Product'']
   \<and> snd (run_discovery scenario_no_titles) = Inr []"
  by code_simp

text \<open>
  What the run does when only a field of the scoring context is missing: the searches
  are made, every scoring task raises before its request, and the result is empty.
\<close>

theorem missing_context_field_run:
  assumes "startup_fields_present (preferences_file w)"
    and "\<not> context_fields_present (preferences_file w)"
  shows "\<exists>qs. search_queries (preferences_file w) = Some qs
           \<and> run_discovery w = (map SearchCall qs, Inr [])"
proof -
  from assms(1) obtain ex br m qs where
    rs: "read_settings (str_lower w) (preferences_file w) = Inr (ex, br, m)"
    and qs: "search_queries (preferences_file w) = Some qs"
    by (auto simp: startup_fields_read [of _ "str_lower w"])
  from assms(2) obtain e where ctx: "scoring_context (preferences_file w) = Inl e"
    by (cases "scoring_context (preferences_file w)") (auto simp: context_fields_read)
  then have sj: "score_job w job = ([], Raised)" for job
    by (simp add: score_job_def)
  then have "score_task w c = Raised" for c
    by (cases c) (simp add: score_task_def)
  then have "aggregate m (map (score_task w) (find_candidates w ex br qs)) [] = Inr []"
    by (intro aggregate_all_raised) simp
  with run_discovery_ok [OF rs qs] sj qs show ?thesis
    by (simp add: sort_by_score_def)
qed

theorem missing_context_field_run_witness:
  "startup_fields_present (preferences_file scenario_no_titles)
   \<and> \<not> context_fields_present (preferences_file scenario_no_titles)
   \<and> run_discovery scenario_no_titles
       = (map SearchCall [''PM remote'', ''Senior PM'', ''Head of Product''], Inr [])"
proof -
  have s: "startup_fields_present (preferences_file scenario_no_titles)" by code_simp
  have c: "\<not> context_fields_present (preferences_file scenario_no_titles)" by code_simp
  have q: "search_queries (preferences_file scenario_no_titles)
      = Some [''PM remote'', ''Senior PM'', ''Head of Product'']"
    by code_simp
  from missing_context_field_run [OF s c] q
  have "run_discovery scenario_no_titles
       = (map SearchCall [''PM remote'', ''Senior PM'', ''Head of Product''], Inr [])"
    by auto
  with s c show ?thesis by simp
qed

subsection \<open>Oracle failures\<close>

text \<open>
  Claim C1 at a concrete run. The oracle answers one candidate, \<open>junior_pm\<close>, with a JSON
  object that has no \<^verbatim>\<open>overall_score\<close>. The scoring task returns it, line 198 raises
  \<^verbatim>\<open>KeyError\<close> outside every task, and the run ends with that exception: the other
  candidates are not output. In the same run with a request that fails for that
  candidate, the candidate is dropped and the others are ranked.
\<close>

theorem malformed_reply_aborts_run:
  "claude scenario_malformed junior_pm
     = Returned (JObj [(''reasoning'', JStr ''Not enough detail'')])
   \<and> snd (run_discovery scenario_malformed) = Inl (KeyError ''overall_score'')
   \<and> claude scenario_failed junior_pm = Raised
   \<and> snd (run_discovery scenario_failed) = Inr scenario_output"
  by code_simp

lemma aggregate_returns:
  "(\<And>cs. Returned cs \<in> set scored \<Longrightarrow> \<exists>x. surface m cs = Inr x) \<Longrightarrow>
   \<exists>out. aggregate m scored acc = Inr out"
proof (induction m scored acc rule: aggregate.induct)
  case (1 m acc)
  show ?case by simp
next
  case (2 m scored acc)
  then show ?case by simp
next
  case (3 m cs scored acc)
  from "3.prems" [of cs] obtain x where x: "surface m cs = Inr x" by auto
  show ?case
  proof (cases x)
    case None
    with x "3.IH"(1) "3.prems" show ?thesis by simp
  next
    case (Some entry)
    with x "3.IH"(2) "3.prems" show ?thesis by simp
  qed
qed

lemma surface_well_formed: "well_formed sd \<Longrightarrow> \<exists>x. surface m (c, sd) = Inr x"
  by (auto simp: well_formed_def surface_def split: sum.splits option.splits)

lemma score_task_Returned:
  "score_task w c = Returned cs \<Longrightarrow> \<exists>sd. cs = (c, sd) \<and> claude w (snd (snd c)) = Returned sd"
  by (cases c) (auto simp: score_task_def score_job_def split: sum.splits outcome.splits)

text \<open>
  Requests that raise. A candidate whose request raised, or whose reply \<^verbatim>\<open>json.loads\<close>
  rejected, has no entry in the list a run returns. When the start-up fields are
  present and every reply that was decoded is well formed, the run returns a list,
  however many requests raised.
\<close>

theorem raised_requests_are_absorbed:
  "(snd (run_discovery w) = Inr out
      \<longrightarrow> (\<forall>e\<in>set out. \<exists>sd. claude w (raw_data e) = Returned sd))
   \<and> (startup_fields_present (preferences_file w)
        \<and> (\<forall>job sd. claude w job = Returned sd \<longrightarrow> well_formed sd)
      \<longrightarrow> (\<exists>out. snd (run_discovery w) = Inr out))"
proof (intro conjI impI ballI)
  fix e
  assume run: "snd (run_discovery w) = Inr out" and e: "e \<in> set out"
  from run obtain ex br m qs all_jobs where
    allj: "all_jobs = List.map_filter (entry_of m) (map (score_task w) (find_candidates w ex br qs))"
    and out: "out = sort_by_score all_jobs"
    by (auto elim: run_discovery_Inr)
  with e obtain c where en: "entry_of m (score_task w c) = Some e"
    by (auto simp: sort_by_score_set set_map_filter)
  then obtain cs where "score_task w c = Returned cs"
    by (cases "score_task w c") (auto simp: entry_of_def)
  from score_task_Returned [OF this] obtain sd where "claude w (snd (snd c)) = Returned sd"
    by blast
  moreover from entry_of_score_task [OF en] have "raw_data e = snd (snd c)" by simp
  ultimately show "\<exists>sd. claude w (raw_data e) = Returned sd" by simp
next
  assume a: "startup_fields_present (preferences_file w)
        \<and> (\<forall>job sd. claude w job = Returned sd \<longrightarrow> well_formed sd)"
  then obtain ex br m qs where
    rs: "read_settings (str_lower w) (preferences_file w) = Inr (ex, br, m)"
    and qs: "search_queries (preferences_file w) = Some qs"
    by (auto simp: startup_fields_read [of _ "str_lower w"])
  have "\<exists>x. surface m cs = Inr x"
    if "Returned cs \<in> set (map (score_task w) (find_candidates w ex br qs))" for cs
  proof -
    from that obtain c where "score_task w c = Returned cs" by auto
    from score_task_Returned [OF this] obtain sd where "cs = (c, sd)"
      and "claude w (snd (snd c)) = Returned sd"
      by blast
    with a show ?thesis by (auto intro: surface_well_formed)
  qed
  then obtain all_jobs where
    "aggregate m (map (score_task w) (find_candidates w ex br qs)) [] = Inr all_jobs"
    using aggregate_returns by blast
  with run_discovery_ok [OF rs qs] show "\<exists>out. snd (run_discovery w) = Inr out"
    by simp
qed

theorem raised_requests_are_absorbed_witness:
  "startup_fields_present (preferences_file scenario)
   \<and> claude scenario principal_pm = Raised
   \<and> snd (run_discovery scenario) = Inr scenario_output
   \<and> list_all (\<lambda>e. claude scenario (raw_data e) \<noteq> Raised) scenario_output
   \<and> list_all (\<lambda>e. raw_data e \<noteq> principal_pm) scenario_output"
proof -
  note t = raised_requests_are_absorbed [of scenario scenario_output]
  have s: "startup_fields_present (preferences_file scenario)" by code_simp
  have p: "claude scenario principal_pm = Raised" by code_simp
  have wf: "\<forall>job sd. claude scenario job = Returned sd \<longrightarrow> well_formed sd"
    by (auto simp: scenario_def reply_def well_formed_def subscript_def numeric_def
        split: if_splits)
  from t s wf have "\<exists>out. snd (run_discovery scenario) = Inr out" by blast
  from t scenario_result
  have "\<forall>e\<in>set scenario_output. \<exists>sd. claude scenario (raw_data e) = Returned sd" by blast
  then have "list_all (\<lambda>e. claude scenario (raw_data e) \<noteq> Raised) scenario_output"
    by (auto simp: list_all_iff)
  moreover from this p have "list_all (\<lambda>e. raw_data e \<noteq> principal_pm) scenario_output"
    by (auto simp: list_all_iff)
  ultimately show ?thesis using s p scenario_result by simp
qed

end
